theory Spec2Isabelle
  imports Main "HOL-Library.AList"
begin

section \<open>Strings and lexical path functions of the Go library (Unix)\<close>

text \<open>
  The export command of \<^verbatim>\<open>cmd/export.go\<close> builds every file name with the functions of
  Go's \<^verbatim>\<open>path/filepath\<close> and \<^verbatim>\<open>strings\<close> packages. They are modelled here for a Unix
  system, where the separator is the slash and a path has no volume name. A Go string is
  a sequence of bytes, as an Isabelle \<open>string\<close> is.
\<close>

definition HasPrefix :: "string \<Rightarrow> string \<Rightarrow> bool" where
  \<comment> \<open>\<^verbatim>\<open>strings.HasPrefix(s, prefix)\<close>\<close>
  "HasPrefix s pre = (take (length pre) s = pre)"

definition IsAbs :: "string \<Rightarrow> bool" where
  \<comment> \<open>\<^verbatim>\<open>filepath.IsAbs\<close>: a Unix path is absolute when it starts with a slash\<close>
  "IsAbs p = HasPrefix p ''/''"

primrec splitSep :: "string \<Rightarrow> string list" where
  \<comment> \<open>the pieces of a path between its slashes; never the empty list\<close>
  "splitSep [] = [[]]"
| "splitSep (c # cs) =
     (if c = CHR ''/'' then [] # splitSep cs
      else (case splitSep cs of [] \<Rightarrow> [[c]] | w # ws \<Rightarrow> (c # w) # ws))"

definition elements :: "string \<Rightarrow> string list" where
  \<comment> \<open>the path elements that count: empty pieces (doubled or trailing slashes) and
      \<^verbatim>\<open>.\<close> name no directory step\<close>
  "elements p = filter (\<lambda>s. s \<noteq> [] \<and> s \<noteq> ''.'') (splitSep p)"

definition cleanStep :: "bool \<Rightarrow> string list \<Rightarrow> string \<Rightarrow> string list" where
  \<comment> \<open>one element processed by \<^verbatim>\<open>Clean\<close>; the stack holds the kept elements, last one first.
      A \<^verbatim>\<open>..\<close> removes the element before it, unless there is none (then it is dropped
      in a rooted path and kept in a relative one) or that element is itself a kept \<^verbatim>\<open>..\<close>.\<close>
  "cleanStep rooted st seg =
     (if seg = ''..'' then
        (case st of
           [] \<Rightarrow> if rooted then [] else [''..'']
         | t # ts \<Rightarrow> if t = ''..'' then ''..'' # t # ts else ts)
      else seg # st)"

definition cleanElems :: "bool \<Rightarrow> string list \<Rightarrow> string list" where
  "cleanElems rooted segs = rev (foldl (cleanStep rooted) [] segs)"

fun joinSep :: "string list \<Rightarrow> string" where
  \<comment> \<open>\<^verbatim>\<open>strings.Join(elems, "/")\<close>\<close>
  "joinSep [] = []"
| "joinSep [x] = x"
| "joinSep (x # y # ys) = x @ ''/'' @ joinSep (y # ys)"

definition Clean :: "string \<Rightarrow> string" where
  \<comment> \<open>\<^verbatim>\<open>filepath.Clean\<close>: the shortest path equivalent to \<open>p\<close> by purely lexical processing.
      Multiple slashes become one, \<^verbatim>\<open>.\<close> elements go, an inner \<^verbatim>\<open>..\<close> goes with the
      element before it, \<^verbatim>\<open>/..\<close> at the root becomes \<^verbatim>\<open>/\<close>, and the empty result is \<^verbatim>\<open>.\<close>\<close>
  "Clean p =
     (let rooted = IsAbs p;
          out = (if rooted then ''/'' else []) @ joinSep (cleanElems rooted (elements p))
      in if out = [] then ''.'' else out)"

definition Join :: "string \<Rightarrow> string \<Rightarrow> string" where
  \<comment> \<open>\<^verbatim>\<open>filepath.Join(a, b)\<close>: empty elements are ignored, the rest is joined by slashes and
      cleaned; with nothing left the result is the empty string\<close>
  "Join a b =
     (if a \<noteq> [] then Clean (a @ ''/'' @ b)
      else if b \<noteq> [] then Clean b
      else [])"

definition Base :: "string \<Rightarrow> string" where
  \<comment> \<open>\<^verbatim>\<open>filepath.Base\<close>: the last element of the path, after trailing slashes are removed;
      \<^verbatim>\<open>.\<close> for the empty path and \<^verbatim>\<open>/\<close> for a path of slashes only\<close>
  "Base p =
     (if p = [] then ''.''
      else let r = rev (takeWhile (\<lambda>c. c \<noteq> CHR ''/'') (dropWhile (\<lambda>c. c = CHR ''/'') (rev p)))
           in if r = [] then ''/'' else r)"

definition Dir :: "string \<Rightarrow> string" where
  \<comment> \<open>\<^verbatim>\<open>filepath.Dir\<close>: everything up to the last slash, cleaned\<close>
  "Dir p = Clean (rev (dropWhile (\<lambda>c. c \<noteq> CHR ''/'') (rev p)))"

section \<open>Errors, the environment and the world\<close>

text \<open>
  A Go \<^verbatim>\<open>error\<close> is modelled by its message, the text that \<^verbatim>\<open>%v\<close> prints and that
  \<^verbatim>\<open>fmt.Errorf("...: %w", err)\<close> extends.
\<close>

datatype error = Error (message: string)

definition PathError :: "string \<Rightarrow> string \<Rightarrow> string \<Rightarrow> error" where
  \<comment> \<open>the message of an \<^verbatim>\<open>*fs.PathError\<close>: operation, path, reason\<close>
  "PathError opn path reason = Error (opn @ '' '' @ path @ '': '' @ reason)"

definition nl :: string where
  "nl = [CHR 0x0A]"

text \<open>
  The file system is a finite table from the names of existing files and directories to
  what they are; a name is the list of path elements from the root, and the root itself
  (the empty list) is always a directory. There are no symbolic links.
\<close>

datatype node = DirN | FileN string

type_synonym fsys = "(string list \<times> node) list"

datatype sysop = OpMkdir | OpReadDir | OpWriteFile

datatype api = GetToolGroupConfigs | GetServerConfigs

text \<open>
  What a run does is recorded in order: every message printed on the command's output,
  every invocation of a listing operation of the API client, every directory created and
  every file written.
\<close>

datatype event =
    Printed string
  | Called api
  | Created string
  | Wrote string string

record world =
  fs :: fsys
  trace :: "event list"

text \<open>
  The entity types \<^verbatim>\<open>ToolGroupConfig\<close> and \<^verbatim>\<open>ServerConfig\<close> are declared outside
  \<^verbatim>\<open>cmd/export.go\<close>; the command reads their \<^verbatim>\<open>Name\<close> field only and hands the whole
  value to the JSON encoder. An entity is therefore a name with a body of any type.
\<close>

record 'a entity =
  Name :: string
  body :: 'a

text \<open>
  The environment holds everything a run reads and does not change: the value of the
  \<^verbatim>\<open>--dir\<close> flag (the package variable \<^verbatim>\<open>exportCmdTargetDir\<close>), the variable \<^verbatim>\<open>$HOME\<close>,
  the answer of \<^verbatim>\<open>os.Getwd\<close>, the answers of the two listing operations of \<^verbatim>\<open>apiClient\<close>,
  the JSON encoder \<^verbatim>\<open>json.MarshalIndent\<close> (a function of the value, the prefix and the
  indentation), and \<open>fault\<close>, which says for each system call and path whether the
  operating system refuses it (permissions, a full disk, an invalid name) and with which
  error. A refused call changes nothing.
\<close>

record 'a env =
  exportCmdTargetDir :: string
  HOME :: string
  cwd :: "error + string"
  fault :: "sysop \<Rightarrow> string \<Rightarrow> error option"
  toolGroupConfigs :: "error + 'a entity list"
  serverConfigs :: "error + 'a entity list"
  MarshalIndent :: "'a entity \<Rightarrow> string \<Rightarrow> string \<Rightarrow> error + string"

definition defaultExportTargetDir :: string where
  "defaultExportTargetDir = ''.mcpjungle''"

definition exportMcpServersDir :: string where
  "exportMcpServersDir = ''servers''"

definition exportToolGroupsDir :: string where
  "exportToolGroupsDir = ''groups''"

section \<open>The system calls\<close>

definition UserHomeDir :: "'a env \<Rightarrow> error + string" where
  \<comment> \<open>\<^verbatim>\<open>os.UserHomeDir\<close> on Unix: the value of \<^verbatim>\<open>$HOME\<close> as it is, an error when it is empty\<close>
  "UserHomeDir env =
     (if HOME env \<noteq> [] then Inr (HOME env) else Inl (Error ''$HOME is not defined''))"

definition Getwd :: "'a env \<Rightarrow> error + string" where
  "Getwd env = cwd env"

definition Abs :: "'a env \<Rightarrow> string \<Rightarrow> error + string" where
  \<comment> \<open>\<^verbatim>\<open>filepath.Abs\<close>: an absolute path is cleaned, a relative one is joined to the
      working directory\<close>
  "Abs env p =
     (if IsAbs p then Inr (Clean p)
      else (case Getwd env of Inl err \<Rightarrow> Inl err | Inr wd \<Rightarrow> Inr (Join wd p)))"

definition fskey :: "string \<Rightarrow> string list" where
  \<comment> \<open>the name the kernel reaches by walking a path from the root. The command hands
      only results of \<^verbatim>\<open>Clean\<close> and \<^verbatim>\<open>Join\<close> to the system calls; with an absolute working
      directory these are absolute paths without \<^verbatim>\<open>.\<close> or \<^verbatim>\<open>..\<close>, which this walk reads as
      the kernel does.\<close>
  "fskey p = elements p"

definition lookupN :: "fsys \<Rightarrow> string list \<Rightarrow> node option" where
  "lookupN t k = (if k = [] then Some DirN else map_of t k)"

definition stat :: "world \<Rightarrow> string \<Rightarrow> node option" where
  "stat w p = lookupN (fs w) (fskey p)"

definition render :: "string list \<Rightarrow> string" where
  "render k = ''/'' @ joinSep k"

definition mkdirAt :: "'a env \<Rightarrow> string \<Rightarrow> string list \<Rightarrow> world \<Rightarrow> error option \<times> world" where
  \<comment> \<open>the system call \<^verbatim>\<open>mkdir(2)\<close> for the path \<open>p\<close> that names \<open>k\<close>\<close>
  "mkdirAt env p k w =
     (case fault env OpMkdir p of
        Some err \<Rightarrow> (Some err, w)
      | None \<Rightarrow>
          if lookupN (fs w) k \<noteq> None then (Some (PathError ''mkdir'' p ''file exists''), w)
          else (case lookupN (fs w) (butlast k) of
                  None \<Rightarrow> (Some (PathError ''mkdir'' p ''no such file or directory''), w)
                | Some (FileN _) \<Rightarrow> (Some (PathError ''mkdir'' p ''not a directory''), w)
                | Some DirN \<Rightarrow>
                    (None, w\<lparr>fs := AList.update k DirN (fs w),
                              trace := trace w @ [Created p]\<rparr>)))"

definition Mkdir :: "'a env \<Rightarrow> string \<Rightarrow> world \<Rightarrow> error option \<times> world" where
  \<comment> \<open>\<^verbatim>\<open>os.Mkdir(p, 0o755)\<close>\<close>
  "Mkdir env p w = mkdirAt env p (fskey p) w"

fun mkdirAllFrom :: "'a env \<Rightarrow> string list \<Rightarrow> string list \<Rightarrow> world \<Rightarrow> error option \<times> world" where
  \<comment> \<open>the missing directories on the way from \<open>cur\<close> down along \<open>rest\<close> are created, the
      parent before the child\<close>
  "mkdirAllFrom env cur [] w = (None, w)"
| "mkdirAllFrom env cur (s # rest) w =
     (let k = cur @ [s] in
      case lookupN (fs w) k of
        Some DirN \<Rightarrow> mkdirAllFrom env k rest w
      | Some (FileN _) \<Rightarrow> (Some (PathError ''mkdir'' (render k) ''not a directory''), w)
      | None \<Rightarrow>
          (case mkdirAt env (render k) k w of
             (Some err, w') \<Rightarrow> (Some err, w')
           | (None, w') \<Rightarrow> mkdirAllFrom env k rest w'))"

definition MkdirAll :: "'a env \<Rightarrow> string \<Rightarrow> world \<Rightarrow> error option \<times> world" where
  \<comment> \<open>\<^verbatim>\<open>os.MkdirAll(p, 0o755)\<close>: nothing to do when \<open>p\<close> is a directory already, an error
      when it is a file, and otherwise the directory is created with all missing parents\<close>
  "MkdirAll env p w =
     (case lookupN (fs w) (fskey p) of
        Some DirN \<Rightarrow> (None, w)
      | Some (FileN _) \<Rightarrow> (Some (PathError ''mkdir'' p ''not a directory''), w)
      | None \<Rightarrow> mkdirAllFrom env [] (fskey p) w)"

definition dirEntries :: "fsys \<Rightarrow> string list \<Rightarrow> string list" where
  "dirEntries t k = map last (filter (\<lambda>q. q \<noteq> [] \<and> butlast q = k) (map fst t))"

definition ReadDir :: "'a env \<Rightarrow> string \<Rightarrow> world \<Rightarrow> error + string list" where
  \<comment> \<open>\<^verbatim>\<open>os.ReadDir\<close>: the names of the entries of the directory. The command uses their
      number only, so the order that \<^verbatim>\<open>os.ReadDir\<close> gives them is not modelled.\<close>
  "ReadDir env p w =
     (case fault env OpReadDir p of
        Some err \<Rightarrow> Inl err
      | None \<Rightarrow>
          (case lookupN (fs w) (fskey p) of
             None \<Rightarrow> Inl (PathError ''open'' p ''no such file or directory'')
           | Some (FileN _) \<Rightarrow> Inl (PathError ''readdirent'' p ''not a directory'')
           | Some DirN \<Rightarrow> Inr (dirEntries (fs w) (fskey p))))"

definition WriteFile :: "'a env \<Rightarrow> string \<Rightarrow> string \<Rightarrow> world \<Rightarrow> error option \<times> world" where
  \<comment> \<open>\<^verbatim>\<open>os.WriteFile(p, data, 0o644)\<close>: the file is created, or replaced when it exists\<close>
  "WriteFile env p data w =
     (case fault env OpWriteFile p of
        Some err \<Rightarrow> (Some err, w)
      | None \<Rightarrow>
          (case lookupN (fs w) (fskey p) of
             Some DirN \<Rightarrow> (Some (PathError ''open'' p ''is a directory''), w)
           | _ \<Rightarrow>
               (case lookupN (fs w) (butlast (fskey p)) of
                  None \<Rightarrow> (Some (PathError ''open'' p ''no such file or directory''), w)
                | Some (FileN _) \<Rightarrow> (Some (PathError ''open'' p ''not a directory''), w)
                | Some DirN \<Rightarrow>
                    (None, w\<lparr>fs := AList.update (fskey p) (FileN data) (fs w),
                              trace := trace w @ [Wrote p data]\<rparr>))))"

definition Printf :: "string \<Rightarrow> world \<Rightarrow> world" where
  \<comment> \<open>\<^verbatim>\<open>cmd.Printf\<close> with the format already filled in\<close>
  "Printf s w = w\<lparr>trace := trace w @ [Printed s]\<rparr>"

definition Println :: "string \<Rightarrow> world \<Rightarrow> world" where
  "Println s w = Printf (s @ nl) w"

definition call :: "api \<Rightarrow> world \<Rightarrow> world" where
  \<comment> \<open>a listing operation of \<^verbatim>\<open>apiClient\<close> is invoked\<close>
  "call a w = w\<lparr>trace := trace w @ [Called a]\<rparr>"

section \<open>The export command\<close>

definition expandHome :: "'a env \<Rightarrow> string \<Rightarrow> error + string" where
  \<comment> \<open>lines 57 to 68 of \<^verbatim>\<open>resolveTargetDirForExport\<close>: the home directory is looked up for
      every path that starts with a tilde\<close>
  "expandHome env targetDir =
     (if HasPrefix targetDir ''~'' then
        (case UserHomeDir env of
           Inl err \<Rightarrow> Inl err
         | Inr home \<Rightarrow>
             if targetDir = ''~'' then Inr home
             else if HasPrefix targetDir ''~/'' then Inr (Join home (drop 2 targetDir))
             else Inr targetDir)
      else Inr targetDir)"

definition absClean :: "'a env \<Rightarrow> string \<Rightarrow> error + string" where
  \<comment> \<open>lines 70 to 75 of \<^verbatim>\<open>resolveTargetDirForExport\<close>: make absolute and clean\<close>
  "absClean env targetDir =
     (case Abs env targetDir of
        Inl err \<Rightarrow> Inl err
      | Inr absDir \<Rightarrow> Inr (Clean absDir))"

definition targetPath :: "'a env \<Rightarrow> error + string" where
  \<comment> \<open>lines 51 to 75: the flag or the default, the tilde expanded, made absolute, cleaned\<close>
  "targetPath env =
     (let targetDir = exportCmdTargetDir env;
          targetDir = (if targetDir = [] then defaultExportTargetDir else targetDir)
      in case expandHome env targetDir of
           Inl err \<Rightarrow> Inl err
         | Inr targetDir \<Rightarrow> absClean env targetDir)"

definition resolveTargetDirForExport :: "'a env \<Rightarrow> world \<Rightarrow> (error + string) \<times> world" where
  "resolveTargetDirForExport env w =
     (case targetPath env of
        Inl err \<Rightarrow> (Inl err, w)
      | Inr targetDir \<Rightarrow>
          (case MkdirAll env targetDir w of
             (Some err, w') \<Rightarrow> (Inl err, w')
           | (None, w') \<Rightarrow>
               (case ReadDir env targetDir w' of
                  Inl err \<Rightarrow>
                    (Inl (Error (''failed to read contents of target directory '' @ targetDir
                                 @ '': '' @ message err)), w')
                | Inr entries \<Rightarrow>
                    if length entries > 0
                    then (Inl (Error (''target directory '' @ targetDir @ '' is not empty'')), w')
                    else (Inr targetDir, w'))))"

definition writeJSONConfigFile ::
    "'a env \<Rightarrow> string \<Rightarrow> string \<Rightarrow> 'a entity \<Rightarrow> world \<Rightarrow> error option \<times> world" where
  "writeJSONConfigFile env entityDir entityName ent w =
     (let filename = Join entityDir (Base entityName @ ''.json'') in
      case MarshalIndent env ent [] ''  '' of
        Inl err \<Rightarrow>
          (Some (Error (''failed to serialize entity '' @ entityDir @ ''/'' @ entityName
                        @ '': '' @ message err)), w)
      | Inr data \<Rightarrow>
          (case WriteFile env filename data w of
             (Some err, w') \<Rightarrow>
               (Some (Error (''failed to write entity file '' @ filename @ '': '' @ message err)), w')
           | (None, w') \<Rightarrow> (None, w')))"

fun writeEntities :: "'a env \<Rightarrow> string \<Rightarrow> 'a entity list \<Rightarrow> world \<Rightarrow> error option \<times> world" where
  \<comment> \<open>the loops of lines 134 to 138 and 153 to 157: the first failure returns\<close>
  "writeEntities env dir [] w = (None, w)"
| "writeEntities env dir (e # es) w =
     (case writeJSONConfigFile env dir (Name e) e w of
        (Some err, w') \<Rightarrow> (Some err, w')
      | (None, w') \<Rightarrow> writeEntities env dir es w')"

definition exportToolGroups :: "'a env \<Rightarrow> string \<Rightarrow> world \<Rightarrow> error option \<times> world" where
  \<comment> \<open>lines 123 to 140 of \<^verbatim>\<open>runExport\<close>\<close>
  "exportToolGroups env groupsDir w =
     (let w = Println ''Fetching Tool Group configurations...'' w;
          w = call GetToolGroupConfigs w
      in case toolGroupConfigs env of
           Inl gErr \<Rightarrow>
             (None, Printf (''warning: failed to fetch tool group configurations: ''
                            @ message gErr @ nl) w)
         | Inr groups \<Rightarrow>
             if length groups = 0 then (None, Println ''No Tool Groups found.'' w)
             else writeEntities env groupsDir groups
                    (Printf (''Writing Tool Groups configurations to '' @ groupsDir @ nl) w))"

definition exportMcpServers :: "'a env \<Rightarrow> string \<Rightarrow> world \<Rightarrow> error option \<times> world" where
  \<comment> \<open>lines 142 to 159 of \<^verbatim>\<open>runExport\<close>; the warning has no newline in the source\<close>
  "exportMcpServers env serversDir w =
     (let w = Println ''Fetching MCP Server configurations...'' w;
          w = call GetServerConfigs w
      in case serverConfigs env of
           Inl sErr \<Rightarrow>
             (None, Printf (''warning: failed to fetch mcp server configurations: ''
                            @ message sErr) w)
         | Inr servers \<Rightarrow>
             if length servers = 0 then (None, Println ''No MCP Servers found.'' w)
             else writeEntities env serversDir servers
                    (Printf (''Writing MCP Server configurations to '' @ serversDir @ nl) w))"

definition setupExport :: "'a env \<Rightarrow> world \<Rightarrow> (error + string \<times> string) \<times> world" where
  \<comment> \<open>lines 107 to 121 of \<^verbatim>\<open>runExport\<close>: the target directory is resolved and the two
      subdirectories are created; the result is \<^verbatim>\<open>groupsDir\<close> and \<^verbatim>\<open>serversDir\<close>\<close>
  "setupExport env w =
     (case resolveTargetDirForExport env w of
        (Inl err, w1) \<Rightarrow>
          (Inl (Error (''failed to resolve target directory for export: '' @ message err)), w1)
      | (Inr targetDir, w1) \<Rightarrow>
          (let w2 = Printf (''Creating subdirectories inside '' @ targetDir @ nl @ nl) w1;
               groupsDir = Join targetDir exportToolGroupsDir
           in case Mkdir env groupsDir w2 of
                (Some err, w3) \<Rightarrow>
                  (Inl (Error (''failed to create groups directory: '' @ message err)), w3)
              | (None, w3) \<Rightarrow>
                  (let serversDir = Join targetDir exportMcpServersDir
                   in case Mkdir env serversDir w3 of
                        (Some err, w4) \<Rightarrow>
                          (Inl (Error (''failed to create mcp servers directory: ''
                                       @ message err)), w4)
                      | (None, w4) \<Rightarrow> (Inr (groupsDir, serversDir), w4))))"

definition runExport :: "'a env \<Rightarrow> world \<Rightarrow> error option \<times> world" where
  "runExport env w =
     (case setupExport env w of
        (Inl err, w4) \<Rightarrow> (Some err, w4)
      | (Inr (groupsDir, serversDir), w4) \<Rightarrow>
          (case exportToolGroups env groupsDir w4 of
             (Some err, w5) \<Rightarrow> (Some err, w5)
           | (None, w5) \<Rightarrow>
               (case exportMcpServers env serversDir w5 of
                  (Some err, w6) \<Rightarrow> (Some err, w6)
                | (None, w6) \<Rightarrow> (None, Println (nl @ ''Export complete!'') w6))))"

section \<open>Predicates used in the statements\<close>

definition plainSeg :: "string \<Rightarrow> bool" where
  \<comment> \<open>a path element as \<open>elements\<close> gives them: not empty, not \<^verbatim>\<open>.\<close>, without a slash\<close>
  "plainSeg s = (s \<noteq> [] \<and> s \<noteq> ''.'' \<and> CHR ''/'' \<notin> set s)"

definition normalSeg :: "string \<Rightarrow> bool" where
  \<comment> \<open>a path element that names an entry of a directory\<close>
  "normalSeg s = (plainSeg s \<and> s \<noteq> ''..'')"


definition wdAbsolute :: "'a env \<Rightarrow> bool" where
  \<comment> \<open>the working directory, when the system can tell it, is an absolute path\<close>
  "wdAbsolute env = (case Getwd env of Inl _ \<Rightarrow> True | Inr wd \<Rightarrow> IsAbs wd)"

definition cleanKey :: "string \<Rightarrow> string list" where
  "cleanKey a = cleanElems True (elements a)"

definition wfFS :: "fsys \<Rightarrow> bool" where
  \<comment> \<open>the table is a tree: every entry has a name, and its parent is a directory\<close>
  "wfFS t = list_all (\<lambda>(k, n). k \<noteq> [] \<and> lookupN t (butlast k) = Some DirN) t"

definition configFile :: "string \<Rightarrow> string \<Rightarrow> string" where
  \<comment> \<open>the \<^verbatim>\<open>filename\<close> of \<^verbatim>\<open>writeJSONConfigFile\<close>, line 95\<close>
  "configFile entityDir entityName = Join entityDir (Base entityName @ ''.json'')"

definition fileElem :: "string \<Rightarrow> string" where
  \<comment> \<open>the last element of that file name: the base name of the entity's name with the
      suffix; a base name that is the slash alone leaves the suffix\<close>
  "fileElem name = (if Base name = ''/'' then ''.json'' else Base name @ ''.json'')"

definition written :: "'a env \<Rightarrow> world \<Rightarrow> string \<Rightarrow> bool" where
  \<comment> \<open>\<open>f\<close> is a file in an existing directory, and the system does not refuse to write it\<close>
  "written env w f =
     (fault env OpWriteFile f = None
      \<and> (case stat w f of Some (FileN _) \<Rightarrow> True | _ \<Rightarrow> False)
      \<and> lookupN (fs w) (butlast (fskey f)) = Some DirN)"

definition isCalled :: "event \<Rightarrow> bool" where
  \<comment> \<open>the event is the invocation of a listing operation\<close>
  "isCalled e = (case e of Called _ \<Rightarrow> True | _ \<Rightarrow> False)"

definition groupsCalled :: "world \<Rightarrow> world" where
  \<comment> \<open>the world once the tool group listing has been invoked (line 125)\<close>
  "groupsCalled w = call GetToolGroupConfigs (Println ''Fetching Tool Group configurations...'' w)"

definition groupsStart :: "string \<Rightarrow> world \<Rightarrow> world" where
  \<comment> \<open>the world in which the loop over the tool groups starts (line 134)\<close>
  "groupsStart groupsDir w =
     Printf (''Writing Tool Groups configurations to '' @ groupsDir @ nl) (groupsCalled w)"

definition serversCalled :: "world \<Rightarrow> world" where
  \<comment> \<open>the world once the server listing has been invoked (line 144)\<close>
  "serversCalled w = call GetServerConfigs (Println ''Fetching MCP Server configurations...'' w)"

definition serversStart :: "string \<Rightarrow> world \<Rightarrow> world" where
  \<comment> \<open>the world in which the loop over the servers starts (line 153)\<close>
  "serversStart serversDir w =
     Printf (''Writing MCP Server configurations to '' @ serversDir @ nl) (serversCalled w)"

definition creatingMsg :: "string \<Rightarrow> string" where
  \<comment> \<open>the message of line 112\<close>
  "creatingMsg targetDir = ''Creating subdirectories inside '' @ targetDir @ nl @ nl"

section \<open>Concrete environments and worlds\<close>

definition worldW :: world where
  \<comment> \<open>a file system that holds the working directory \<^verbatim>\<open>/w\<close> and nothing else\<close>
  "worldW = \<lparr>fs = [([''w''], DirN)], trace = []\<rparr>"

definition envDots :: "unit env" where
  "envDots = \<lparr>exportCmdTargetDir = ''out/../a/./b//c/'', HOME = ''/home/u'', cwd = Inr ''/w'',
     fault = (\<lambda>_ _. None), toolGroupConfigs = Inr [], serverConfigs = Inr [],
     MarshalIndent = (\<lambda>e p i. Inr ''{}'')\<rparr>"

definition worldUsed :: world where
  \<comment> \<open>the directory \<^verbatim>\<open>/w\<close> holds a file\<close>
  "worldUsed = \<lparr>fs = [([''w''], DirN), ([''w'', ''notes.txt''], FileN ''hello'')], trace = []\<rparr>"

definition envUsed :: "unit env" where
  "envUsed = \<lparr>exportCmdTargetDir = ''../w/.'', HOME = ''/home/u'', cwd = Inr ''/w'',
     fault = (\<lambda>_ _. None), toolGroupConfigs = Inr [], serverConfigs = Inr [],
     MarshalIndent = (\<lambda>e p i. Inr ''{}'')\<rparr>"

definition envTilde :: "unit env" where
  "envTilde = \<lparr>exportCmdTargetDir = ''~foo'', HOME = [], cwd = Inr ''/w'',
     fault = (\<lambda>_ _. None), toolGroupConfigs = Inr [], serverConfigs = Inr [],
     MarshalIndent = (\<lambda>e p i. Inr ''{}'')\<rparr>"

definition envHomeSlash :: "unit env" where
  "envHomeSlash = \<lparr>exportCmdTargetDir = ''~'', HOME = ''/home/u/'', cwd = Inr ''/w'',
     fault = (\<lambda>_ _. None), toolGroupConfigs = Inr [], serverConfigs = Inr [],
     MarshalIndent = (\<lambda>e p i. Inr ''{}'')\<rparr>"

definition envHomeRest :: "unit env" where
  "envHomeRest = \<lparr>exportCmdTargetDir = ''~/a/../b'', HOME = ''/home/u'', cwd = Inr ''/w'',
     fault = (\<lambda>_ _. None), toolGroupConfigs = Inr [], serverConfigs = Inr [],
     MarshalIndent = (\<lambda>e p i. Inr ''{}'')\<rparr>"

definition encoder :: "string entity \<Rightarrow> string \<Rightarrow> string \<Rightarrow> error + string" where
  \<comment> \<open>a stand-in for the JSON encoder in the examples\<close>
  "encoder e pre ind = Inr (pre @ ''{'' @ nl @ pre @ ind @ Name e @ '': '' @ body e @ nl @ pre @ ''}'')"

definition envX :: "string env" where
  "envX = \<lparr>exportCmdTargetDir = ''/x'', HOME = ''/home/u'', cwd = Inr ''/w'',
     fault = (\<lambda>_ _. None),
     toolGroupConfigs = Inl (Error ''connection refused''),
     serverConfigs = Inr [\<lparr>Name = ''A'', body = ''1''\<rparr>, \<lparr>Name = ''B'', body = ''2''\<rparr>],
     MarshalIndent = encoder\<rparr>"

definition worldX :: world where
  "worldX = \<lparr>fs = [([''x''], DirN), ([''x'', ''groups''], DirN), ([''x'', ''servers''], DirN)],
             trace = []\<rparr>"

definition worldY :: world where
  "worldY = \<lparr>fs = [([''y''], DirN), ([''y'', ''groups''], DirN), ([''y'', ''groups'', ''old.json''], FileN ''x'')],
             trace = [Printed ''earlier'']\<rparr>"

definition entProd :: "string entity" where
  "entProd = \<lparr>Name = ''prod-group'', body = ''cfg''\<rparr>"

definition entFirst :: "string entity" where
  "entFirst = \<lparr>Name = ''a/x'', body = ''1''\<rparr>"

definition entSecond :: "string entity" where
  "entSecond = \<lparr>Name = ''b/x'', body = ''2''\<rparr>"

definition entEscape :: "string entity" where
  "entEscape = \<lparr>Name = ''../../etc/passwd'', body = ''cfg''\<rparr>"

definition refuse :: "sysop \<Rightarrow> string \<Rightarrow> sysop \<Rightarrow> string \<Rightarrow> error option" where
  \<comment> \<open>the system refuses one call on one path\<close>
  "refuse o1 p1 o2 p2 = (if o1 = o2 \<and> p1 = p2 then Some (Error ''permission denied'') else None)"

definition envNoGroups :: "string env" where
  "envNoGroups = envX\<lparr>fault := refuse OpMkdir ''/x/groups''\<rparr>"

definition envNoServers :: "string env" where
  "envNoServers = envX\<lparr>fault := refuse OpMkdir ''/x/servers''\<rparr>"





definition entA :: "string entity" where
  "entA = \<lparr>Name = ''A'', body = ''1''\<rparr>"

definition entB :: "string entity" where
  "entB = \<lparr>Name = ''B'', body = ''2''\<rparr>"



definition envServersDown :: "string env" where
  "envServersDown = envX\<lparr>toolGroupConfigs := Inr [entA, entB],
                          serverConfigs := Inl (Error ''timeout'')\<rparr>"

definition envUnreadable :: "unit env" where
  \<comment> \<open>the system refuses to list \<^verbatim>\<open>/w\<close>\<close>
  "envUnreadable = envUsed\<lparr>fault := refuse OpReadDir ''/w''\<rparr>"

section \<open>Facts about the path functions\<close>

lemma splitSep_nonempty: "splitSep p \<noteq> []"
  by (induction p) (auto split: list.splits)

lemma splitSep_append: "splitSep (a @ CHR ''/'' # b) = splitSep a @ splitSep b"
proof (induction a)
  case Nil
  show ?case by simp
next
  case (Cons c a)
  obtain w ws where sa: "splitSep a = w # ws"
    using splitSep_nonempty [of a] by (cases "splitSep a") auto
  show ?case using Cons sa by simp
qed

lemma splitSep_no_slash: "CHR ''/'' \<notin> set s \<Longrightarrow> splitSep s = [s]"
  by (induction s) auto

lemma splitSep_pieces: "s \<in> set (splitSep p) \<Longrightarrow> CHR ''/'' \<notin> set s"
proof (induction p arbitrary: s)
  case Nil
  then show ?case by simp
next
  case (Cons c p)
  obtain w ws where sp: "splitSep p = w # ws"
    using splitSep_nonempty [of p] by (cases "splitSep p") auto
  show ?case
  proof (cases "c = CHR ''/''")
    case True
    with Cons show ?thesis by auto
  next
    case False
    with Cons.prems sp have "s = c # w \<or> s \<in> set ws" by simp
    moreover have "CHR ''/'' \<notin> set w" using Cons.IH [of w] sp by simp
    moreover have "s \<in> set ws \<Longrightarrow> CHR ''/'' \<notin> set s" using Cons.IH [of s] sp by simp
    ultimately show ?thesis using False by auto
  qed
qed

lemma elements_append: "elements (a @ CHR ''/'' # b) = elements a @ elements b"
  by (simp add: elements_def splitSep_append)

lemma elements_plain: "s \<in> set (elements p) \<Longrightarrow> plainSeg s"
  by (auto simp: elements_def plainSeg_def dest: splitSep_pieces)

lemma elements_single: "plainSeg s \<Longrightarrow> elements s = [s]"
  by (simp add: elements_def plainSeg_def splitSep_no_slash)

lemma elements_Nil [simp]: "elements [] = []"
  by (simp add: elements_def)

lemma elements_joinSep: "list_all plainSeg ks \<Longrightarrow> elements (joinSep ks) = ks"
proof (induction ks rule: joinSep.induct)
  case 1
  show ?case by simp
next
  case (2 x)
  then show ?case by (simp add: elements_single)
next
  case (3 x y ys)
  then show ?case using elements_append [of x "joinSep (y # ys)"]
    by (simp add: elements_single)
qed

lemma elements_render: "list_all plainSeg ks \<Longrightarrow> elements (render ks) = ks"
  using elements_append [of "[]" "joinSep ks"] by (simp add: render_def elements_joinSep)

lemma foldl_cleanStep_normal:
  "list_all normalSeg ks \<Longrightarrow> foldl (cleanStep r) st ks = rev ks @ st"
  by (induction ks arbitrary: st) (auto simp: normalSeg_def cleanStep_def)

lemma cleanElems_normal: "list_all normalSeg ks \<Longrightarrow> cleanElems r ks = ks"
  by (simp add: cleanElems_def foldl_cleanStep_normal)

lemma cleanElems_snoc_normal:
  "normalSeg c \<Longrightarrow> cleanElems r (xs @ [c]) = cleanElems r xs @ [c]"
  by (simp add: cleanElems_def normalSeg_def cleanStep_def)

lemma foldl_cleanStep_rooted:
  "list_all plainSeg xs \<Longrightarrow> list_all normalSeg st \<Longrightarrow>
   list_all normalSeg (foldl (cleanStep True) st xs)"
proof (induction xs arbitrary: st)
  case Nil
  then show ?case by simp
next
  case (Cons x xs)
  have "list_all normalSeg (cleanStep True st x)"
    using Cons.prems by (cases st) (auto simp: normalSeg_def list_all_iff cleanStep_def)
  with Cons show ?case by simp
qed

lemma cleanElems_rooted_normal:
  "list_all plainSeg xs \<Longrightarrow> list_all normalSeg (cleanElems True xs)"
  using foldl_cleanStep_rooted [of xs "[]"] by (simp add: cleanElems_def)

lemma elements_all_plain: "list_all plainSeg (elements p)"
  by (simp add: list_all_iff elements_plain)

lemma normal_plain: "list_all normalSeg ks \<Longrightarrow> list_all plainSeg ks"
  by (simp add: list_all_iff normalSeg_def)

lemma Clean_abs: "IsAbs p \<Longrightarrow> Clean p = render (cleanElems True (elements p))"
  by (simp add: Clean_def render_def)

lemma IsAbs_render [simp]: "IsAbs (render ks)"
  by (simp add: IsAbs_def HasPrefix_def render_def)

lemma IsAbs_append: "IsAbs a \<Longrightarrow> IsAbs (a @ b)"
  by (cases a) (auto simp: IsAbs_def HasPrefix_def)

lemma Clean_render: "list_all normalSeg ks \<Longrightarrow> Clean (render ks) = render ks"
  by (simp add: Clean_abs elements_render normal_plain cleanElems_normal)

lemma Join_abs:
  "IsAbs a \<Longrightarrow> Join a b = render (cleanElems True (elements a @ elements b))"
proof -
  assume a: "IsAbs a"
  then have "a \<noteq> []" by (auto simp: IsAbs_def HasPrefix_def)
  moreover have "IsAbs (a @ ''/'' @ b)" using a by (rule IsAbs_append)
  ultimately show ?thesis
    using elements_append [of a b] by (simp add: Join_def Clean_abs)
qed

lemma Join_render:
  "list_all normalSeg ks \<Longrightarrow> normalSeg c \<Longrightarrow> elements b = [c] \<Longrightarrow>
   Join (render ks) b = render (ks @ [c])"
  by (simp add: Join_abs elements_render normal_plain cleanElems_normal)



lemma Abs_IsAbs:
  assumes "wdAbsolute env" and "Abs env t = Inr a"
  shows "IsAbs a"
proof (cases "IsAbs t")
  case True
  with assms(2) show ?thesis by (auto simp: Abs_def Clean_abs)
next
  case False
  with assms(2) obtain wd where wd: "Getwd env = Inr wd" and a: "a = Join wd t"
    by (auto simp: Abs_def split: sum.splits)
  from assms(1) wd have "IsAbs wd" by (simp add: wdAbsolute_def)
  then show ?thesis by (simp add: a Join_abs)
qed

lemma cleanKey_normal: "list_all normalSeg (cleanKey a)"
  by (simp add: cleanKey_def cleanElems_rooted_normal elements_all_plain)

lemma targetPath_render:
  assumes "wdAbsolute env" and "targetPath env = Inr d"
  shows "\<exists>ks. list_all normalSeg ks \<and> d = render ks"
proof -
  from assms(2) obtain t a where "Abs env t = Inr a" and d: "d = Clean a"
    by (auto simp: targetPath_def absClean_def Let_def split: sum.splits)
  with assms(1) have "IsAbs a" by (auto dest: Abs_IsAbs)
  then have "d = render (cleanKey a)" by (simp add: d Clean_abs cleanKey_def)
  then show ?thesis using cleanKey_normal by blast
qed

lemma resolve_targetPath:
  "resolveTargetDirForExport env w = (Inr d, w') \<Longrightarrow> targetPath env = Inr d"
  by (auto simp: resolveTargetDirForExport_def split: sum.splits prod.splits option.splits if_splits)


lemma cleanStep_other: "seg \<noteq> ''..'' \<Longrightarrow> cleanStep r st seg = seg # st"
  by (simp add: cleanStep_def)

lemma cleanStep_dotdot_Nil: "cleanStep r [] ''..'' = (if r then [] else [''..''])"
  by (simp add: cleanStep_def)

lemma cleanStep_dotdot_Cons:
  "cleanStep r (t # ts) ''..'' = (if t = ''..'' then ''..'' # t # ts else ts)"
  by (simp add: cleanStep_def)

lemma foldl_cleanStep_reclean:
  "foldl (cleanStep r) st (cleanElems False ys) = foldl (cleanStep r) st ys"
proof (induction ys rule: rev_induct)
  case Nil
  show ?case by (simp add: cleanElems_def)
next
  case (snoc y zs)
  define c where "c = foldl (cleanStep False) [] zs"
  define S where "S = foldl (cleanStep r) st zs"
  have ih: "foldl (cleanStep r) st (rev c) = S"
    using snoc by (simp add: cleanElems_def c_def S_def)
  have "foldl (cleanStep r) st (rev (cleanStep False c y)) = cleanStep r S y"
  proof (cases "y = ''..''")
    case False
    then show ?thesis using ih by (simp add: cleanStep_other)
  next
    case True
    show ?thesis
    proof (cases c)
      case Nil
      with True ih show ?thesis by (simp add: cleanStep_dotdot_Nil cleanStep_other)
    next
      case (Cons t ts)
      show ?thesis
      proof (cases "t = ''..''")
        case True
        with \<open>y = ''..''\<close> Cons ih show ?thesis
          by (simp add: cleanStep_dotdot_Cons cleanStep_other)
      next
        case False
        have "S = t # foldl (cleanStep r) st (rev ts)"
          using ih [symmetric] Cons False by (simp add: cleanStep_other)
        with \<open>y = ''..''\<close> Cons False show ?thesis by (simp add: cleanStep_dotdot_Cons)
      qed
    qed
  qed
  then show ?case by (simp add: cleanElems_def c_def S_def)
qed


lemma cleanStep_plain:
  "list_all plainSeg st \<Longrightarrow> plainSeg y \<Longrightarrow> list_all plainSeg (cleanStep r st y)"
  by (cases st) (auto simp: cleanStep_def plainSeg_def)

lemma foldl_cleanStep_plain:
  "list_all plainSeg ys \<Longrightarrow> list_all plainSeg st \<Longrightarrow>
   list_all plainSeg (foldl (cleanStep r) st ys)"
proof (induction ys arbitrary: st)
  case Nil
  then show ?case by simp
next
  case (Cons y ys)
  then have "list_all plainSeg (cleanStep r st y)" by (simp add: cleanStep_plain)
  with Cons show ?case by simp
qed

lemma cleanElems_plain: "list_all plainSeg ys \<Longrightarrow> list_all plainSeg (cleanElems r ys)"
  using foldl_cleanStep_plain [of ys "[]" r] by (simp add: cleanElems_def)

lemma cleanElems_idem:
  assumes "list_all plainSeg ys"
  shows "cleanElems r (cleanElems r ys) = cleanElems r ys"
proof (cases r)
  case False
  then show ?thesis
    using foldl_cleanStep_reclean [of False "[]" ys] by (simp add: cleanElems_def)
next
  case True
  then show ?thesis using assms by (simp add: cleanElems_rooted_normal cleanElems_normal)
qed

lemma joinSep_plain:
  "cs \<noteq> [] \<Longrightarrow> list_all plainSeg cs \<Longrightarrow> joinSep cs \<noteq> [] \<and> \<not> IsAbs (joinSep cs)"
  by (induction cs rule: joinSep.induct)
     (auto simp: plainSeg_def IsAbs_def HasPrefix_def neq_Nil_conv)

lemma Clean_rel:
  assumes "\<not> IsAbs p"
  shows "Clean p = (if cleanElems False (elements p) = [] then ''.''
                    else joinSep (cleanElems False (elements p)))"
proof -
  have "list_all plainSeg (cleanElems False (elements p))"
    by (simp add: cleanElems_plain elements_all_plain)
  then show ?thesis using assms joinSep_plain [of "cleanElems False (elements p)"]
    by (auto simp: Clean_def)
qed

lemma elements_dot: "elements ''.'' = []"
  by (simp add: elements_def)

lemma elements_Clean: "elements (Clean p) = cleanElems (IsAbs p) (elements p)"
proof (cases "IsAbs p")
  case True
  then show ?thesis
    by (simp add: Clean_abs elements_render cleanElems_plain elements_all_plain)
next
  case False
  then show ?thesis
    by (simp add: Clean_rel elements_dot elements_joinSep cleanElems_plain elements_all_plain)
qed

lemma IsAbs_Clean: "IsAbs (Clean p) = IsAbs p"
proof (cases "IsAbs p")
  case True
  then show ?thesis by (simp add: Clean_abs)
next
  case False
  have "list_all plainSeg (cleanElems False (elements p))"
    by (simp add: cleanElems_plain elements_all_plain)
  then show ?thesis using False joinSep_plain [of "cleanElems False (elements p)"]
    by (auto simp: Clean_rel IsAbs_def HasPrefix_def)
qed

lemma Clean_cong: "IsAbs p = IsAbs q \<Longrightarrow> elements p = elements q \<Longrightarrow> Clean p = Clean q"
  by (simp add: Clean_def)

lemma Clean_idem: "Clean (Clean p) = Clean p"
proof -
  have "Clean (Clean p) =
     (let rooted = IsAbs p;
          out = (if rooted then ''/'' else []) @ joinSep (cleanElems rooted (elements p))
      in if out = [] then ''.'' else out)"
    unfolding Clean_def [of "Clean p"]
    by (simp add: IsAbs_Clean elements_Clean cleanElems_idem elements_all_plain Let_def)
  then show ?thesis by (simp add: Clean_def [of p])
qed

lemma Clean_nonempty: "Clean p \<noteq> []"
  by (simp add: Clean_def Let_def)

lemma IsAbs_sep: "a \<noteq> [] \<Longrightarrow> IsAbs (a @ b) = IsAbs a"
  by (cases a) (auto simp: IsAbs_def HasPrefix_def)

lemma Join_Clean_right:
  assumes "\<not> IsAbs x" and "x \<noteq> []"
  shows "Join wd (Clean x) = Join wd x"
proof (cases "wd = []")
  case True
  with assms show ?thesis by (simp add: Join_def Clean_nonempty Clean_idem)
next
  case False
  have "foldl (cleanStep r) [] (elements wd @ cleanElems False (elements x)) =
        foldl (cleanStep r) [] (elements wd @ elements x)" for r
    by (simp only: foldl_append foldl_cleanStep_reclean)
  then have "cleanElems r (elements wd @ cleanElems False (elements x)) =
        cleanElems r (elements wd @ elements x)" for r
    unfolding cleanElems_def [of r] by simp
  then have "elements (Clean (wd @ ''/'' @ Clean x)) = elements (Clean (wd @ ''/'' @ x))"
    using False assms(1) elements_append [of wd "Clean x"] elements_append [of wd x]
    by (simp add: elements_Clean IsAbs_sep)
  moreover have "IsAbs (Clean (wd @ ''/'' @ Clean x)) = IsAbs (Clean (wd @ ''/'' @ x))"
    using False by (simp add: IsAbs_Clean IsAbs_sep)
  ultimately have "Clean (Clean (wd @ ''/'' @ Clean x)) = Clean (Clean (wd @ ''/'' @ x))"
    by (intro Clean_cong)
  then show ?thesis using False by (simp add: Join_def Clean_idem)
qed

lemma Abs_Clean: "x \<noteq> [] \<Longrightarrow> Abs env (Clean x) = Abs env x"
  by (cases "IsAbs x")
     (simp_all add: Abs_def IsAbs_Clean Clean_idem Join_Clean_right split: sum.splits)

lemma absClean_Join:
  "h \<noteq> [] \<Longrightarrow> absClean env (Join h rest) = absClean env (h @ ''/'' @ rest)"
  by (simp add: absClean_def Join_def Abs_Clean)

lemma HasPrefix_tilde: "HasPrefix t ''~'' = (\<exists>r. t = CHR ''~'' # r)"
  by (cases t) (auto simp: HasPrefix_def)

lemma HasPrefix_tilde_slash: "HasPrefix t ''~/'' = (\<exists>r. t = ''~/'' @ r)"
  by (cases t; cases "tl t") (auto simp: HasPrefix_def)

lemma tilde_not_abs: "HasPrefix t ''~'' \<Longrightarrow> \<not> IsAbs t"
  by (auto simp: HasPrefix_tilde IsAbs_def HasPrefix_def)

lemma targetPath_no_tilde:
  "\<not> HasPrefix (exportCmdTargetDir env) ''~'' \<Longrightarrow>
   targetPath env = absClean env (if exportCmdTargetDir env = [] then defaultExportTargetDir
                                  else exportCmdTargetDir env)"
  by (simp add: targetPath_def expandHome_def Let_def defaultExportTargetDir_def HasPrefix_def)

lemma absClean_HOME: "absClean (env\<lparr>HOME := hm\<rparr>) p = absClean env p"
  by (simp add: absClean_def Abs_def Getwd_def)

lemma UserHomeDir_nonempty: "UserHomeDir env = Inr h \<Longrightarrow> h \<noteq> []"
  by (auto simp: UserHomeDir_def split: if_splits)

section \<open>Facts about the system calls\<close>



lemma lookupN_update:
  "k \<noteq> [] \<Longrightarrow> lookupN (AList.update k v t) q = (if q = k then Some v else lookupN t q)"
  by (simp add: lookupN_def update_conv')

lemma dirEntries_empty_child:
  assumes "dirEntries t k = []"
  shows "lookupN t (k @ [n]) = None"
proof (rule ccontr)
  assume "lookupN t (k @ [n]) \<noteq> None"
  then obtain v where "map_of t (k @ [n]) = Some v" by (auto simp: lookupN_def)
  then have "(k @ [n], v) \<in> set t" by (rule map_of_SomeD)
  then have "k @ [n] \<in> fst ` set t" by force
  then have "k @ [n] \<in> set (filter (\<lambda>q. q \<noteq> [] \<and> butlast q = k) (map fst t))" by simp
  with assms show False by (simp add: dirEntries_def)
qed

lemma wfFS_orphan:
  assumes "wfFS t" and "lookupN t k = None"
  shows "lookupN t (k @ [n]) = None"
proof (rule ccontr)
  assume "lookupN t (k @ [n]) \<noteq> None"
  then obtain v where "map_of t (k @ [n]) = Some v" by (auto simp: lookupN_def)
  then have "(k @ [n], v) \<in> set t" by (rule map_of_SomeD)
  with assms(1) have "lookupN t (butlast (k @ [n])) = Some DirN"
    by (auto simp: wfFS_def list_all_iff)
  with assms(2) show False by simp
qed

lemma set_update_subset: "set (AList.update k v t) \<subseteq> insert (k, v) (set t)"
  by (induction t) auto

lemma wfFS_update:
  assumes "wfFS t" and "k \<noteq> []" and "lookupN t (butlast k) = Some DirN"
    and "lookupN t k \<noteq> Some DirN \<or> v = DirN"
  shows "wfFS (AList.update k v t)"
proof -
  have bl: "butlast k \<noteq> k" using assms(2) by (metis append_butlast_last_id self_append_conv snoc_eq_iff_butlast not_Cons_self2)
  have "q \<noteq> [] \<and> lookupN (AList.update k v t) (butlast q) = Some DirN"
    if "(q, n) \<in> set (AList.update k v t)" for q n
  proof -
    from that set_update_subset have "(q, n) = (k, v) \<or> (q, n) \<in> set t" by fastforce
    then show ?thesis
    proof
      assume "(q, n) = (k, v)"
      then show ?thesis using assms(2,3) bl by (simp add: lookupN_update)
    next
      assume "(q, n) \<in> set t"
      with assms(1) have q: "q \<noteq> []" "lookupN t (butlast q) = Some DirN"
        by (auto simp: wfFS_def list_all_iff)
      then show ?thesis using assms(2,4) by (auto simp: lookupN_update)
    qed
  qed
  then show ?thesis by (auto simp: wfFS_def list_all_iff)
qed


lemma butlast_neq: "k \<noteq> [] \<Longrightarrow> butlast k \<noteq> k"
  by (metis append_butlast_last_id self_append_conv snoc_eq_iff_butlast not_Cons_self2)

lemma mkdirAt_cases:
  assumes "mkdirAt env p k w = (r, w')"
  shows "(r \<noteq> None \<and> w' = w) \<or>
         (r = None \<and> k \<noteq> [] \<and> fault env OpMkdir p = None \<and> lookupN (fs w) k = None
          \<and> lookupN (fs w) (butlast k) = Some DirN
          \<and> w' = w\<lparr>fs := AList.update k DirN (fs w), trace := trace w @ [Created p]\<rparr>)"
proof (cases "fault env OpMkdir p")
  case (Some e)
  with assms have "r = Some e \<and> w' = w" by (auto simp: mkdirAt_def)
  then show ?thesis by simp
next
  case None
  have "k \<noteq> []" if "lookupN (fs w) k = None" using that by (auto simp: lookupN_def)
  with assms None show ?thesis
    by (auto simp: mkdirAt_def split: option.splits node.splits if_splits)
qed

lemma mkdirAt_ok:
  assumes "fault env OpMkdir p = None" and "lookupN (fs w) k = None"
    and "lookupN (fs w) (butlast k) = Some DirN"
  shows "mkdirAt env p k w =
         (None, w\<lparr>fs := AList.update k DirN (fs w), trace := trace w @ [Created p]\<rparr>)"
  using assms by (simp add: mkdirAt_def)

lemma mkdirAt_wf:
  assumes "mkdirAt env p k w = (r, w')" and "wfFS (fs w)"
  shows "wfFS (fs w')"
  using mkdirAt_cases [OF assms(1)] assms(2) by (auto intro: wfFS_update)

lemma mkdirAllFrom_wf:
  "mkdirAllFrom env cur rest w = (r, w') \<Longrightarrow> wfFS (fs w) \<Longrightarrow> wfFS (fs w')"
proof (induction rest arbitrary: cur w)
  case Nil
  then show ?case by simp
next
  case (Cons s rest)
  show ?case
  proof (cases "lookupN (fs w) (cur @ [s])")
    case None
    obtain r1 w1 where m: "mkdirAt env (render (cur @ [s])) (cur @ [s]) w = (r1, w1)"
      by (cases "mkdirAt env (render (cur @ [s])) (cur @ [s]) w")
    have wf1: "wfFS (fs w1)" using m Cons.prems(2) by (rule mkdirAt_wf)
    show ?thesis
    proof (cases r1)
      case None
      with Cons.prems(1) \<open>lookupN (fs w) (cur @ [s]) = None\<close> m
      have "mkdirAllFrom env (cur @ [s]) rest w1 = (r, w')" by simp
      then show ?thesis using wf1 by (rule Cons.IH)
    next
      case (Some e)
      with Cons.prems(1) \<open>lookupN (fs w) (cur @ [s]) = None\<close> m wf1 show ?thesis by simp
    qed
  next
    case (Some n)
    with Cons show ?thesis by (cases n) auto
  qed
qed

lemma mkdirAllFrom_trace:
  "mkdirAllFrom env cur rest w = (r, w') \<Longrightarrow> \<exists>ps. trace w' = trace w @ map Created ps"
proof (induction rest arbitrary: cur w)
  case Nil
  then show ?case by simp
next
  case (Cons s rest)
  show ?case
  proof (cases "lookupN (fs w) (cur @ [s])")
    case None
    obtain r1 w1 where m: "mkdirAt env (render (cur @ [s])) (cur @ [s]) w = (r1, w1)"
      by (cases "mkdirAt env (render (cur @ [s])) (cur @ [s]) w")
    show ?thesis
    proof (cases r1)
      case None
      with Cons.prems(1) \<open>lookupN (fs w) (cur @ [s]) = None\<close> m
      have "mkdirAllFrom env (cur @ [s]) rest w1 = (r, w')" by simp
      then obtain ps where "trace w' = trace w1 @ map Created ps" using Cons.IH by blast
      moreover have "trace w1 = trace w @ [Created (render (cur @ [s]))]"
        using mkdirAt_cases [OF m] None by auto
      ultimately have "trace w' = trace w @ map Created (render (cur @ [s]) # ps)" by simp
      then show ?thesis by blast
    next
      case (Some e)
      with Cons.prems(1) \<open>lookupN (fs w) (cur @ [s]) = None\<close> m mkdirAt_cases [OF m]
      have "w' = w" by auto
      then show ?thesis by simp
    qed
  next
    case (Some n)
    with Cons show ?thesis by (cases n) auto
  qed
qed

lemma mkdirAllFrom_effect:
  "mkdirAllFrom env cur rest w = (r, w') \<Longrightarrow>
   lookupN (fs w') q = lookupN (fs w) q \<or>
   (lookupN (fs w) q = None \<and> lookupN (fs w') q = Some DirN \<and> (\<exists>a b. rest = a @ b \<and> q = cur @ a))"
proof (induction rest arbitrary: cur w)
  case Nil
  then show ?case by simp
next
  case (Cons s rest)
  have step: "lookupN (fs w') q = lookupN (fs w1) q \<or>
     (lookupN (fs w1) q = None \<and> lookupN (fs w') q = Some DirN \<and> (\<exists>a b. s # rest = a @ b \<and> q = cur @ a))"
    if "mkdirAllFrom env (cur @ [s]) rest w1 = (r, w')" for w1
  proof -
    from Cons.IH [OF that] show ?thesis
    proof
      assume "lookupN (fs w') q = lookupN (fs w1) q"
      then show ?thesis by simp
    next
      assume a: "lookupN (fs w1) q = None \<and> lookupN (fs w') q = Some DirN \<and>
        (\<exists>a b. rest = a @ b \<and> q = (cur @ [s]) @ a)"
      then obtain a b where "rest = a @ b" "q = (cur @ [s]) @ a" by blast
      then have "\<exists>a b. s # rest = a @ b \<and> q = cur @ a"
        by (intro exI [of _ "s # a"] exI [of _ b]) simp
      then show ?thesis using a by simp
    qed
  qed
  show ?case
  proof (cases "lookupN (fs w) (cur @ [s])")
    case None
    obtain r1 w1 where m: "mkdirAt env (render (cur @ [s])) (cur @ [s]) w = (r1, w1)"
      by (cases "mkdirAt env (render (cur @ [s])) (cur @ [s]) w")
    show ?thesis
    proof (cases r1)
      case None
      with Cons.prems(1) \<open>lookupN (fs w) (cur @ [s]) = None\<close> m
      have rec: "mkdirAllFrom env (cur @ [s]) rest w1 = (r, w')" by simp
      have w1: "fs w1 = AList.update (cur @ [s]) DirN (fs w)"
        using mkdirAt_cases [OF m] None by auto
      have q1: "lookupN (fs w1) q = (if q = cur @ [s] then Some DirN else lookupN (fs w) q)"
        by (simp add: w1 lookupN_update)
      show ?thesis
      proof (cases "q = cur @ [s]")
        case True
        have "s # rest = [s] @ rest \<and> q = cur @ [s]" using True by simp
        moreover have "lookupN (fs w') q = Some DirN"
          using step [OF rec] q1 True by auto
        ultimately show ?thesis using \<open>lookupN (fs w) (cur @ [s]) = None\<close> True by blast
      next
        case False
        with step [OF rec] q1 show ?thesis by auto
      qed
    next
      case (Some e)
      with Cons.prems(1) \<open>lookupN (fs w) (cur @ [s]) = None\<close> m mkdirAt_cases [OF m]
      have "w' = w" by auto
      then show ?thesis by simp
    qed
  next
    case (Some n)
    show ?thesis
    proof (cases n)
      case DirN
      with Some Cons.prems have "mkdirAllFrom env (cur @ [s]) rest w = (r, w')" by simp
      from step [OF this] show ?thesis .
    next
      case (FileN x)
      with Some Cons.prems show ?thesis by simp
    qed
  qed
qed


lemma MkdirAll_existing: "stat w d = Some DirN \<Longrightarrow> MkdirAll env d w = (None, w)"
  by (simp add: MkdirAll_def stat_def)

lemma MkdirAll_trace:
  "MkdirAll env d w = (r, w') \<Longrightarrow> \<exists>ps. trace w' = trace w @ map Created ps"
proof (cases "lookupN (fs w) (fskey d)")
  case None
  assume "MkdirAll env d w = (r, w')"
  with None have "mkdirAllFrom env [] (fskey d) w = (r, w')" by (simp add: MkdirAll_def)
  then show ?thesis by (rule mkdirAllFrom_trace)
next
  case (Some n)
  assume "MkdirAll env d w = (r, w')"
  with Some have "w' = w" by (cases n) (auto simp: MkdirAll_def)
  then show ?thesis by simp
qed

lemma MkdirAll_effect:
  assumes "MkdirAll env d w = (r, w')"
  shows "lookupN (fs w') q = lookupN (fs w) q \<or>
   (lookupN (fs w) q = None \<and> lookupN (fs w') q = Some DirN \<and> (\<exists>b. fskey d = q @ b))"
proof (cases "lookupN (fs w) (fskey d)")
  case None
  with assms have "mkdirAllFrom env [] (fskey d) w = (r, w')" by (simp add: MkdirAll_def)
  from mkdirAllFrom_effect [OF this, of q] show ?thesis by auto
next
  case (Some n)
  with assms have "w' = w" by (cases n) (auto simp: MkdirAll_def)
  then show ?thesis by simp
qed

lemma MkdirAll_wf:
  assumes "MkdirAll env d w = (r, w')" and "wfFS (fs w)"
  shows "wfFS (fs w')"
proof (cases "lookupN (fs w) (fskey d)")
  case None
  with assms(1) have "mkdirAllFrom env [] (fskey d) w = (r, w')" by (simp add: MkdirAll_def)
  then show ?thesis using assms(2) by (rule mkdirAllFrom_wf)
next
  case (Some n)
  with assms(1) have "w' = w" by (cases n) (auto simp: MkdirAll_def)
  then show ?thesis using assms(2) by simp
qed

lemma resolve_cases:
  assumes "resolveTargetDirForExport env w = (r, w')"
  shows "(\<exists>e. targetPath env = Inl e \<and> r = Inl e \<and> w' = w) \<or>
         (\<exists>d r1. targetPath env = Inr d \<and> MkdirAll env d w = (r1, w') \<and>
            (r = Inr d \<longrightarrow> r1 = None \<and> ReadDir env d w' = Inr []))"
proof (cases "targetPath env")
  case (Inl e)
  with assms have "r = Inl e \<and> w' = w" by (auto simp: resolveTargetDirForExport_def)
  with Inl show ?thesis by simp
next
  case (Inr d)
  obtain r1 w1 where m: "MkdirAll env d w = (r1, w1)" by (cases "MkdirAll env d w")
  with assms Inr have "w' = w1 \<and> (r = Inr d \<longrightarrow> r1 = None \<and> ReadDir env d w' = Inr [])"
    by (auto simp: resolveTargetDirForExport_def split: option.splits sum.splits if_splits)
  with Inr m show ?thesis by auto
qed

lemma resolve_nonempty:
  assumes "targetPath env = Inr d" and "stat w d = Some DirN"
    and "dirEntries (fs w) (fskey d) \<noteq> []" and "fault env OpReadDir d = None"
  shows "resolveTargetDirForExport env w =
           (Inl (Error (''target directory '' @ d @ '' is not empty'')), w)"
proof -
  have "ReadDir env d w = Inr (dirEntries (fs w) (fskey d))"
    using assms(2,4) by (simp add: ReadDir_def stat_def)
  then show ?thesis
    using assms(1,3) MkdirAll_existing [OF assms(2), of env]
    by (simp add: resolveTargetDirForExport_def)
qed

lemma resolve_existing_nonempty:
  assumes "targetPath env = Inr d" and "stat w d = Some DirN"
    and "dirEntries (fs w) (fskey d) \<noteq> []"
  shows "\<exists>e. resolveTargetDirForExport env w = (Inl e, w)"
proof (cases "fault env OpReadDir d")
  case None
  with assms show ?thesis by (simp add: resolve_nonempty)
next
  case (Some err)
  then have "ReadDir env d w = Inl err" by (simp add: ReadDir_def)
  then show ?thesis
    using assms(1) MkdirAll_existing [OF assms(2), of env]
    by (simp add: resolveTargetDirForExport_def)
qed

section \<open>Facts about the file names and the writes\<close>




lemma Base_shape: "Base p = ''/'' \<or> (Base p \<noteq> [] \<and> CHR ''/'' \<notin> set (Base p))"
proof -
  have "CHR ''/'' \<notin> set (takeWhile (\<lambda>c. c \<noteq> CHR ''/'') xs)" for xs :: string
    by (auto dest: set_takeWhileD)
  then show ?thesis by (auto simp: Base_def Let_def)
qed

lemma fileElem_normal: "normalSeg (fileElem name)"
proof (cases "Base name = ''/''")
  case True
  then show ?thesis by (simp add: fileElem_def normalSeg_def plainSeg_def)
next
  case False
  with Base_shape [of name] have b: "Base name \<noteq> []" "CHR ''/'' \<notin> set (Base name)" by auto
  have "Base name @ ''.json'' \<noteq> ''.''" "Base name @ ''.json'' \<noteq> ''..''"
    by (auto simp: append_eq_Cons_conv)
  with b False show ?thesis by (simp add: fileElem_def normalSeg_def plainSeg_def)
qed

lemma elements_fileElem: "elements (Base name @ ''.json'') = [fileElem name]"
proof (cases "Base name = ''/''")
  case True
  have "elements (''/'' @ ''.json'') = [''.json'']" by (simp add: elements_def)
  with True show ?thesis by (simp add: fileElem_def)
next
  case False
  then have "Base name @ ''.json'' = fileElem name" by (simp add: fileElem_def)
  then show ?thesis using fileElem_normal [of name]
    by (simp add: elements_single normalSeg_def)
qed

lemma configFile_render:
  "IsAbs dir \<Longrightarrow> configFile dir name = render (cleanKey dir @ [fileElem name])"
  by (simp add: configFile_def Join_abs elements_fileElem cleanElems_snoc_normal
      fileElem_normal cleanKey_def)

lemma fskey_render: "list_all normalSeg ks \<Longrightarrow> fskey (render ks) = ks"
  by (simp add: fskey_def elements_render normal_plain)

lemma fskey_configFile:
  "IsAbs dir \<Longrightarrow> fskey (configFile dir name) = cleanKey dir @ [fileElem name]"
  by (simp add: configFile_render fskey_render cleanKey_normal fileElem_normal)

lemma fskey_Clean: "IsAbs dir \<Longrightarrow> fskey (Clean dir) = cleanKey dir"
  by (simp add: Clean_abs fskey_render cleanKey_normal cleanKey_def [symmetric])

lemma joinSep_snoc: "ks \<noteq> [] \<Longrightarrow> joinSep (ks @ [c]) = joinSep ks @ ''/'' @ c"
  by (induction ks rule: joinSep.induct) auto

lemma render_snoc:
  "render (ks @ [c]) = (if ks = [] then ''/'' @ c else render ks @ ''/'' @ c)"
  by (simp add: render_def joinSep_snoc)

lemma dropWhile_all: "\<forall>x\<in>set xs. P x \<Longrightarrow> dropWhile P (xs @ y # ys) = dropWhile P (y # ys)"
  by (induction xs) auto

lemma takeWhile_all: "\<forall>x\<in>set xs. P x \<Longrightarrow> \<not> P y \<Longrightarrow> takeWhile P (xs @ y # ys) = xs"
  by (induction xs) auto

lemma dropWhile_hd: "xs \<noteq> [] \<Longrightarrow> \<not> P (hd xs) \<Longrightarrow> dropWhile P (xs @ zs) = xs @ zs"
  by (cases xs) auto

lemma Dir_append:
  assumes "CHR ''/'' \<notin> set c"
  shows "Dir (pre @ ''/'' @ c) = Clean (pre @ ''/'')"
proof -
  have "\<forall>x\<in>set (rev c). x \<noteq> CHR ''/''" using assms by auto
  then have "dropWhile (\<lambda>x. x \<noteq> CHR ''/'') (rev c @ CHR ''/'' # rev pre) = CHR ''/'' # rev pre"
    using dropWhile_all [of "rev c" "\<lambda>x. x \<noteq> CHR ''/''" "CHR ''/''" "rev pre"] by simp
  then show ?thesis by (simp add: Dir_def)
qed

lemma Base_append:
  assumes "CHR ''/'' \<notin> set c" and "c \<noteq> []"
  shows "Base (pre @ ''/'' @ c) = c"
proof -
  have "last c \<noteq> CHR ''/''" using assms by (metis last_in_set)
  then have "hd (rev c) \<noteq> CHR ''/''" by (simp add: hd_rev)
  then have d: "dropWhile (\<lambda>x. x = CHR ''/'') (rev c @ CHR ''/'' # rev pre) = rev c @ CHR ''/'' # rev pre"
    using dropWhile_hd [of "rev c" "\<lambda>x. x = CHR ''/''"] assms(2) by simp
  have "\<forall>x\<in>set (rev c). x \<noteq> CHR ''/''" using assms(1) by auto
  then have "takeWhile (\<lambda>x. x \<noteq> CHR ''/'') (rev c @ CHR ''/'' # rev pre) = rev c"
    using takeWhile_all [of "rev c" "\<lambda>x. x \<noteq> CHR ''/''" "CHR ''/''" "rev pre"] by simp
  with d show ?thesis using assms(2) by (simp add: Base_def)
qed

lemma Clean_render_slash: "list_all normalSeg ks \<Longrightarrow> Clean (render ks @ ''/'') = render ks"
proof -
  assume n: "list_all normalSeg ks"
  have "IsAbs (render ks @ ''/'')" by (simp add: IsAbs_append)
  moreover have "elements (render ks @ ''/'') = ks"
    using elements_append [of "render ks" "[]"] n by (simp add: elements_render normal_plain)
  ultimately show ?thesis using n by (simp add: Clean_abs cleanElems_normal)
qed

lemma Dir_render_snoc:
  assumes "list_all normalSeg ks" and "normalSeg c"
  shows "Dir (render (ks @ [c])) = render ks"
proof -
  have c: "CHR ''/'' \<notin> set c" using assms(2) by (simp add: normalSeg_def plainSeg_def)
  show ?thesis
  proof (cases "ks = []")
    case True
    have "Clean ''/'' = ''/''" by (simp add: Clean_def IsAbs_def HasPrefix_def elements_def cleanElems_def)
    then show ?thesis using True Dir_append [OF c, of "[]"] by (simp add: render_snoc render_def)
  next
    case False
    then show ?thesis using Dir_append [OF c, of "render ks"] assms(1)
      by (simp add: render_snoc Clean_render_slash)
  qed
qed

lemma Base_render_snoc:
  assumes "normalSeg c"
  shows "Base (render (ks @ [c])) = c"
proof -
  have c: "CHR ''/'' \<notin> set c" "c \<noteq> []" using assms by (simp_all add: normalSeg_def plainSeg_def)
  show ?thesis
    using Base_append [OF c, of "[]"] Base_append [OF c, of "render ks"]
    by (simp add: render_snoc)
qed

lemma WriteFile_cases:
  assumes "WriteFile env p d w = (r, w')"
  shows "(r \<noteq> None \<and> w' = w) \<or>
         (r = None \<and> fault env OpWriteFile p = None \<and> fskey p \<noteq> []
          \<and> lookupN (fs w) (fskey p) \<noteq> Some DirN
          \<and> lookupN (fs w) (butlast (fskey p)) = Some DirN
          \<and> w' = w\<lparr>fs := AList.update (fskey p) (FileN d) (fs w),
                    trace := trace w @ [Wrote p d]\<rparr>)"
proof (cases "fault env OpWriteFile p")
  case (Some e)
  with assms have "r = Some e \<and> w' = w" by (auto simp: WriteFile_def)
  then show ?thesis by simp
next
  case None
  have "fskey p \<noteq> []" if "lookupN (fs w) (fskey p) \<noteq> Some DirN"
    using that by (auto simp: lookupN_def)
  with assms None show ?thesis
    by (auto simp: WriteFile_def split: option.splits node.splits)
qed

lemma WriteFile_ok:
  assumes "fault env OpWriteFile p = None" and "lookupN (fs w) (fskey p) \<noteq> Some DirN"
    and "lookupN (fs w) (butlast (fskey p)) = Some DirN"
  shows "WriteFile env p d w =
         (None, w\<lparr>fs := AList.update (fskey p) (FileN d) (fs w), trace := trace w @ [Wrote p d]\<rparr>)"
  using assms by (auto simp: WriteFile_def split: option.splits node.splits)

lemma writeJSON_cases:
  assumes "writeJSONConfigFile env dir name e w = (r, w')"
  shows "(r \<noteq> None \<and> w' = w) \<or>
         (r = None \<and> (\<exists>d. MarshalIndent env e [] ''  '' = Inr d
            \<and> WriteFile env (configFile dir name) d w = (None, w')))"
proof (cases "MarshalIndent env e [] ''  ''")
  case (Inl err)
  with assms show ?thesis by (auto simp: writeJSONConfigFile_def Let_def)
next
  case (Inr d)
  obtain r1 w1 where wf: "WriteFile env (configFile dir name) d w = (r1, w1)"
    by (cases "WriteFile env (configFile dir name) d w")
  from WriteFile_cases [OF wf] assms Inr wf show ?thesis
    by (cases r1) (auto simp: writeJSONConfigFile_def configFile_def Let_def)
qed

lemma writeJSON_ok:
  assumes "MarshalIndent env e [] ''  '' = Inr d"
    and "WriteFile env (configFile dir name) d w = (None, w')"
  shows "writeJSONConfigFile env dir name e w = (None, w')"
  using assms by (simp add: writeJSONConfigFile_def configFile_def Let_def)

lemma WriteFile_stat:
  assumes "WriteFile env f d w = (None, w')"
  shows "stat w' f = Some (FileN d)"
  using WriteFile_cases [OF assms] by (auto simp: stat_def lookupN_update)

lemma WriteFile_other:
  assumes "WriteFile env f d w = (r, w')" and "q \<noteq> fskey f"
  shows "lookupN (fs w') q = lookupN (fs w) q"
  using WriteFile_cases [OF assms(1)] assms(2) by (auto simp: lookupN_update)

lemma WriteFile_trace:
  assumes "WriteFile env f d w = (None, w')"
  shows "trace w' = trace w @ [Wrote f d]"
  using WriteFile_cases [OF assms] by auto

lemma WriteFile_written:
  assumes "WriteFile env f d w = (None, w')"
  shows "written env w' f"
proof -
  from WriteFile_cases [OF assms]
  have c: "fault env OpWriteFile f = None" "fskey f \<noteq> []"
    "lookupN (fs w) (butlast (fskey f)) = Some DirN"
    "fs w' = AList.update (fskey f) (FileN d) (fs w)" by auto
  from c(2) have "butlast (fskey f) \<noteq> fskey f" by (rule butlast_neq)
  with c show ?thesis by (simp add: written_def stat_def lookupN_update)
qed

lemma WriteFile_keeps_written:
  assumes "WriteFile env f' d w = (None, w')" and "written env w f"
  shows "written env w' f"
proof -
  from WriteFile_cases [OF assms(1)]
  have c: "fskey f' \<noteq> []" "lookupN (fs w) (fskey f') \<noteq> Some DirN"
    "fs w' = AList.update (fskey f') (FileN d) (fs w)" by auto
  from assms(2) have p: "lookupN (fs w) (butlast (fskey f)) = Some DirN"
    by (simp add: written_def)
  with c(2) have "butlast (fskey f) \<noteq> fskey f'" by auto
  with c assms(2) show ?thesis
    by (auto simp: written_def stat_def lookupN_update split: option.splits node.splits)
qed

lemma writeJSON_keeps_written:
  assumes "writeJSONConfigFile env dir name e w = (None, w')" and "written env w f"
  shows "written env w' f"
  using writeJSON_cases [OF assms(1)] assms(2) by (auto dest: WriteFile_keeps_written)

lemma writeJSON_written:
  assumes "writeJSONConfigFile env dir name e w = (None, w')"
  shows "written env w' (configFile dir name)"
  using writeJSON_cases [OF assms] by (auto dest: WriteFile_written)

lemma writeEntities_append:
  "writeEntities env dir (xs @ ys) w =
     (case writeEntities env dir xs w of
        (Some err, w') \<Rightarrow> (Some err, w')
      | (None, w') \<Rightarrow> writeEntities env dir ys w')"
  by (induction xs arbitrary: w) (auto split: prod.splits option.splits)

lemma writeEntities_keeps_written:
  "writeEntities env dir es w = (None, w') \<Longrightarrow> written env w f \<Longrightarrow> written env w' f"
proof (induction es arbitrary: w)
  case Nil
  then show ?case by simp
next
  case (Cons x xs)
  then obtain w1 where 1: "writeJSONConfigFile env dir (Name x) x w = (None, w1)"
    and 2: "writeEntities env dir xs w1 = (None, w')"
    by (auto split: prod.splits option.splits)
  from 1 Cons.prems(2) have "written env w1 f" by (rule writeJSON_keeps_written)
  with 2 show ?case by (rule Cons.IH)
qed

lemma writeEntities_written:
  "writeEntities env dir es w = (None, w') \<Longrightarrow> e \<in> set es \<Longrightarrow>
   written env w' (configFile dir (Name e))"
proof (induction es arbitrary: w)
  case Nil
  then show ?case by simp
next
  case (Cons x xs)
  then obtain w1 where 1: "writeJSONConfigFile env dir (Name x) x w = (None, w1)"
    and 2: "writeEntities env dir xs w1 = (None, w')"
    by (auto split: prod.splits option.splits)
  show ?case
  proof (cases "e = x")
    case True
    from 1 have "written env w1 (configFile dir (Name x))" by (rule writeJSON_written)
    with 2 True show ?thesis by (auto dest: writeEntities_keeps_written)
  next
    case False
    with Cons.prems(2) have "e \<in> set xs" by simp
    with 2 show ?thesis by (rule Cons.IH)
  qed
qed

lemma Base_plain: "CHR ''/'' \<notin> set s \<Longrightarrow> s \<noteq> [] \<Longrightarrow> Base s = s"
proof -
  assume a: "CHR ''/'' \<notin> set s" "s \<noteq> []"
  then have "hd (rev s) \<noteq> CHR ''/''" by (metis hd_rev last_in_set)
  then have "dropWhile (\<lambda>c. c = CHR ''/'') (rev s) = rev s"
    using dropWhile_hd [of "rev s" "\<lambda>c. c = CHR ''/''" "[]"] a(2) by simp
  moreover have "\<forall>x\<in>set (rev s). x \<noteq> CHR ''/''" using a(1) by auto
  then have "takeWhile (\<lambda>c. c \<noteq> CHR ''/'') (rev s) = rev s"
    by (simp only: takeWhile_eq_all_conv)
  ultimately have "rev (takeWhile (\<lambda>c. c \<noteq> CHR ''/'') (dropWhile (\<lambda>c. c = CHR ''/'') (rev s))) = s"
    by (simp only: rev_rev_ident)
  then show ?thesis using a(2) by (simp only: Base_def Let_def if_False)
qed

lemma configFile_literal:
  assumes "IsAbs dir" and "Clean dir = dir" and "dir \<noteq> ''/''" and "normalSeg name"
  shows "configFile dir name = dir @ ''/'' @ name @ ''.json''"
proof -
  have n: "CHR ''/'' \<notin> set name" "name \<noteq> []"
    using assms(4) by (simp_all add: normalSeg_def plainSeg_def)
  then have "Base name = name" by (rule Base_plain)
  moreover have "name \<noteq> ''/''" using n by auto
  ultimately have fe: "fileElem name = name @ ''.json''" by (simp add: fileElem_def)
  have d: "dir = render (cleanKey dir)" using assms(1,2) by (simp add: Clean_abs cleanKey_def)
  with assms(3) have "cleanKey dir \<noteq> []" by (auto simp: render_def)
  then show ?thesis
    using configFile_render [OF assms(1), of name] d by (simp add: render_snoc fe)
qed

section \<open>A target directory that is not empty\<close>

text \<open>
  Claim C2. When the resolved target directory exists already and has at least one entry,
  \<^verbatim>\<open>resolveTargetDirForExport\<close> fails, \<^verbatim>\<open>runExport\<close> returns its error wrapped, and the
  world after the run is the world before it: no file or directory is created or changed
  and nothing is printed. When the system lets the command list the directory, the error
  is "target directory ... is not empty", which names the directory. In every run of
  the resolution, whatever its result, the only effect is the creation of directories,
  each one the target or one of its ancestors, and each one missing before.
\<close>

theorem nonempty_target_rejected:
  "(targetPath env = Inr d \<and> stat w d = Some DirN \<and> dirEntries (fs w) (fskey d) \<noteq> []
      \<and> fault env OpReadDir d = None \<longrightarrow>
      resolveTargetDirForExport env w =
        (Inl (Error (''target directory '' @ d @ '' is not empty'')), w)
      \<and> runExport env w =
        (Some (Error (''failed to resolve target directory for export: target directory ''
                      @ d @ '' is not empty'')), w))
   \<and> (targetPath env = Inr d \<and> stat w d = Some DirN \<and> dirEntries (fs w) (fskey d) \<noteq> []
      \<longrightarrow>
      (\<exists>e. resolveTargetDirForExport env w = (Inl e, w)
           \<and> runExport env w =
               (Some (Error (''failed to resolve target directory for export: '' @ message e)),
                w)))
   \<and> (resolveTargetDirForExport env w = (r, w') \<longrightarrow>
        (\<exists>ps. trace w' = trace w @ map Created ps)
        \<and> (\<forall>q. lookupN (fs w') q = lookupN (fs w) q
               \<or> (lookupN (fs w) q = None \<and> lookupN (fs w') q = Some DirN
                  \<and> (\<exists>dd b. targetPath env = Inr dd \<and> fskey dd = q @ b))))"
proof (intro conjI impI allI)
  assume a: "targetPath env = Inr d \<and> stat w d = Some DirN \<and> dirEntries (fs w) (fskey d) \<noteq> []
      \<and> fault env OpReadDir d = None"
  then show res: "resolveTargetDirForExport env w =
        (Inl (Error (''target directory '' @ d @ '' is not empty'')), w)"
    by (simp add: resolve_nonempty)
  show "runExport env w =
        (Some (Error (''failed to resolve target directory for export: target directory ''
                      @ d @ '' is not empty'')), w)"
    by (simp add: runExport_def setupExport_def res)
next
  assume "targetPath env = Inr d \<and> stat w d = Some DirN \<and> dirEntries (fs w) (fskey d) \<noteq> []"
  then obtain e where e: "resolveTargetDirForExport env w = (Inl e, w)"
    using resolve_existing_nonempty [of env d w] by blast
  then have "runExport env w =
               (Some (Error (''failed to resolve target directory for export: '' @ message e)), w)"
    by (simp add: runExport_def setupExport_def)
  with e show "\<exists>e. resolveTargetDirForExport env w = (Inl e, w)
           \<and> runExport env w =
               (Some (Error (''failed to resolve target directory for export: '' @ message e)),
                w)" by blast
next
  assume r: "resolveTargetDirForExport env w = (r, w')"
  from resolve_cases [OF r] show "\<exists>ps. trace w' = trace w @ map Created ps"
    by (auto dest: MkdirAll_trace)
next
  fix q
  assume r: "resolveTargetDirForExport env w = (r, w')"
  from resolve_cases [OF r] show "lookupN (fs w') q = lookupN (fs w) q
               \<or> (lookupN (fs w) q = None \<and> lookupN (fs w') q = Some DirN
                  \<and> (\<exists>dd b. targetPath env = Inr dd \<and> fskey dd = q @ b))"
  proof
    assume "\<exists>e. targetPath env = Inl e \<and> r = Inl e \<and> w' = w"
    then show ?thesis by auto
  next
    assume "\<exists>d r1. targetPath env = Inr d \<and> MkdirAll env d w = (r1, w') \<and>
            (r = Inr d \<longrightarrow> r1 = None \<and> ReadDir env d w' = Inr [])"
    then obtain d r1 where d: "targetPath env = Inr d" "MkdirAll env d w = (r1, w')" by blast
    from MkdirAll_effect [OF d(2), of q] d(1) show ?thesis by auto
  qed
qed



theorem nonempty_target_rejected_witness:
  "resolveTargetDirForExport envUsed worldUsed =
     (Inl (Error ''target directory /w is not empty''), worldUsed)
   \<and> runExport envUsed worldUsed =
     (Some (Error ''failed to resolve target directory for export: target directory /w is not empty''),
      worldUsed)
   \<and> (\<exists>e. runExport envUnreadable worldUsed =
          (Some (Error (''failed to resolve target directory for export: '' @ message e)),
           worldUsed))
   \<and> (\<exists>ps. trace worldUsed = trace worldUsed @ map Created ps)
   \<and> lookupN (fs worldUsed) [''w''] = Some DirN"
proof -
  have h: "targetPath envUsed = Inr ''/w'' \<and> stat worldUsed ''/w'' = Some DirN
      \<and> dirEntries (fs worldUsed) (fskey ''/w'') \<noteq> [] \<and> fault envUsed OpReadDir ''/w'' = None"
    by code_simp
  have l: "lookupN (fs worldUsed) [''w''] = Some DirN" by code_simp
  note t = nonempty_target_rejected [of envUsed "''/w''" worldUsed
      "Inl (Error ''target directory /w is not empty'')" worldUsed]
  from t h have 1: "resolveTargetDirForExport envUsed worldUsed =
     (Inl (Error ''target directory /w is not empty''), worldUsed)" by simp
  from t h have 2: "runExport envUsed worldUsed =
     (Some (Error ''failed to resolve target directory for export: target directory /w is not empty''),
      worldUsed)" by simp
  from t 1 have 3: "\<exists>ps. trace worldUsed = trace worldUsed @ map Created ps" by blast
  have h': "targetPath envUnreadable = Inr ''/w'' \<and> stat worldUsed ''/w'' = Some DirN
      \<and> dirEntries (fs worldUsed) (fskey ''/w'') \<noteq> []"
    by code_simp
  from nonempty_target_rejected [of envUnreadable "''/w''" worldUsed] h'
  have 4: "\<exists>e. runExport envUnreadable worldUsed =
          (Some (Error (''failed to resolve target directory for export: '' @ message e)),
           worldUsed)" by blast
  from 1 2 3 4 l show ?thesis by blast
qed

section \<open>Paths that start with a tilde\<close>

text \<open>
  Claim C3, as amended. The command looks the home directory up for every path that
  starts with a tilde, before it tells the three forms apart (line 58 to 62). So:
  a path such as \<^verbatim>\<open>~foo\<close>, neither \<^verbatim>\<open>~\<close> nor starting with \<^verbatim>\<open>~/\<close>, is left as it is and
  resolved like any relative path, provided the lookup succeeds; when the lookup fails,
  the resolution of every path that starts with a tilde fails with the lookup's error and
  does nothing else, whether an expansion was asked for or not; and for a path that does
  not start with a tilde the value of \<^verbatim>\<open>$HOME\<close> plays no part.
\<close>

theorem tilde_prefix_lookup:
  "(HasPrefix t ''~'' \<and> t \<noteq> ''~'' \<and> \<not> HasPrefix t ''~/'' \<and> exportCmdTargetDir env = t
      \<and> UserHomeDir env = Inr h \<longrightarrow>
      expandHome env t = Inr t
      \<and> targetPath env =
          (case Getwd env of Inl err \<Rightarrow> Inl err | Inr wd \<Rightarrow> Inr (Clean (Join wd t))))
   \<and> (HasPrefix (exportCmdTargetDir env) ''~'' \<and> UserHomeDir env = Inl err \<longrightarrow>
        resolveTargetDirForExport env w = (Inl err, w)
        \<and> runExport env w =
            (Some (Error (''failed to resolve target directory for export: '' @ message err)), w))
   \<and> (\<not> HasPrefix (exportCmdTargetDir env) ''~'' \<longrightarrow>
        targetPath (env\<lparr>HOME := hm\<rparr>) = targetPath env)"
proof (intro conjI impI)
  assume a: "HasPrefix t ''~'' \<and> t \<noteq> ''~'' \<and> \<not> HasPrefix t ''~/'' \<and> exportCmdTargetDir env = t
      \<and> UserHomeDir env = Inr h"
  then show e: "expandHome env t = Inr t" by (simp add: expandHome_def)
  from a have "t \<noteq> []" by (auto simp: HasPrefix_tilde)
  moreover from a have "\<not> IsAbs t" by (simp add: tilde_not_abs)
  ultimately have "t \<noteq> []" "\<not> IsAbs t" .
  with a e show "targetPath env =
          (case Getwd env of Inl err \<Rightarrow> Inl err | Inr wd \<Rightarrow> Inr (Clean (Join wd t)))"
    by (simp add: targetPath_def absClean_def Abs_def split: sum.splits)
next
  assume a: "HasPrefix (exportCmdTargetDir env) ''~'' \<and> UserHomeDir env = Inl err"
  then have "exportCmdTargetDir env \<noteq> []" by (auto simp: HasPrefix_tilde)
  with a have "targetPath env = Inl err" by (simp add: targetPath_def expandHome_def)
  then show r: "resolveTargetDirForExport env w = (Inl err, w)"
    by (simp add: resolveTargetDirForExport_def)
  show "runExport env w =
            (Some (Error (''failed to resolve target directory for export: '' @ message err)), w)"
    by (simp add: runExport_def setupExport_def r)
next
  assume a: "\<not> HasPrefix (exportCmdTargetDir env) ''~''"
  then have "\<not> HasPrefix (exportCmdTargetDir (env\<lparr>HOME := hm\<rparr>)) ''~''" by simp
  then show "targetPath (env\<lparr>HOME := hm\<rparr>) = targetPath env"
    using a by (simp add: targetPath_no_tilde absClean_HOME)
qed

text \<open>
  The claim as it was stated, that a failed lookup is an error only when an expansion is
  asked for, fails for \<^verbatim>\<open>~foo\<close> with \<^verbatim>\<open>$HOME\<close> unset: no expansion is asked for, and the
  resolution fails with the lookup's error, where with \<^verbatim>\<open>$HOME\<close> set it succeeds.
\<close>

theorem tilde_prefix_lookup_counterexample:
  "exportCmdTargetDir envTilde = ''~foo''
   \<and> \<not> HasPrefix ''~foo'' ''~/''
   \<and> UserHomeDir envTilde = Inl (Error ''$HOME is not defined'')
   \<and> resolveTargetDirForExport envTilde worldW = (Inl (Error ''$HOME is not defined''), worldW)
   \<and> fst (resolveTargetDirForExport (envTilde\<lparr>HOME := ''/home/u''\<rparr>) worldW) = Inr ''/w/~foo''"
  by code_simp

theorem tilde_prefix_lookup_witness:
  "expandHome (envTilde\<lparr>HOME := ''/home/u''\<rparr>) ''~foo'' = Inr ''~foo''
   \<and> targetPath (envTilde\<lparr>HOME := ''/home/u''\<rparr>) = Inr ''/w/~foo''
   \<and> runExport envTilde worldW =
       (Some (Error ''failed to resolve target directory for export: $HOME is not defined''), worldW)
   \<and> targetPath (envDots\<lparr>HOME := []\<rparr>) = Inr ''/w/a/b/c''"
proof -
  have h1: "HasPrefix ''~foo'' ''~'' \<and> ''~foo'' \<noteq> ''~'' \<and> \<not> HasPrefix ''~foo'' ''~/''
      \<and> exportCmdTargetDir (envTilde\<lparr>HOME := ''/home/u''\<rparr>) = ''~foo''
      \<and> UserHomeDir (envTilde\<lparr>HOME := ''/home/u''\<rparr>) = Inr ''/home/u''" by code_simp
  have g: "(case Getwd (envTilde\<lparr>HOME := ''/home/u''\<rparr>) of Inl err \<Rightarrow> Inl err
            | Inr wd \<Rightarrow> Inr (Clean (Join wd ''~foo''))) = Inr ''/w/~foo''" by code_simp
  have h2: "HasPrefix (exportCmdTargetDir envTilde) ''~''
      \<and> UserHomeDir envTilde = Inl (Error ''$HOME is not defined'')" by code_simp
  have h3: "\<not> HasPrefix (exportCmdTargetDir envDots) ''~''" by code_simp
  have t3: "targetPath envDots = Inr ''/w/a/b/c''" by code_simp
  from tilde_prefix_lookup [of "''~foo''" "envTilde\<lparr>HOME := ''/home/u''\<rparr>" "''/home/u''"] h1 g
  have 1: "expandHome (envTilde\<lparr>HOME := ''/home/u''\<rparr>) ''~foo'' = Inr ''~foo''
     \<and> targetPath (envTilde\<lparr>HOME := ''/home/u''\<rparr>) = Inr ''/w/~foo''" by simp
  from tilde_prefix_lookup [of _ envTilde _ "Error ''$HOME is not defined''" worldW] h2
  have 2: "runExport envTilde worldW =
       (Some (Error ''failed to resolve target directory for export: $HOME is not defined''), worldW)"
    by simp
  from tilde_prefix_lookup [of _ envDots _ _ _ "[]"] h3 t3
  have 3: "targetPath (envDots\<lparr>HOME := []\<rparr>) = Inr ''/w/a/b/c''" by simp
  from 1 2 3 show ?thesis by simp
qed

section \<open>The expansion of the tilde\<close>

text \<open>
  Claim C4, as amended. With the home directory \<open>h\<close>: for the flag \<^verbatim>\<open>~\<close> the expansion
  gives exactly \<open>h\<close>, and the resolved path is \<open>h\<close> made absolute and cleaned, which is \<open>h\<close>
  itself when \<open>h\<close> is a clean absolute path already; for a flag \<^verbatim>\<open>~/rest\<close> the expansion
  gives \<^verbatim>\<open>filepath.Join(h, rest)\<close>, which is the cleaned form of \<open>h\<close>, a slash and \<open>rest\<close>
  (so \<open>rest\<close> is not kept letter by letter), and the resolved path is what making absolute
  and cleaning gives from \<open>h\<close>, a slash and \<open>rest\<close> taken letter by letter.
\<close>

theorem tilde_expansion:
  "UserHomeDir env = Inr h \<longrightarrow>
     (exportCmdTargetDir env = ''~'' \<longrightarrow>
        expandHome env ''~'' = Inr h
        \<and> targetPath env = absClean env h
        \<and> (IsAbs h \<and> Clean h = h \<longrightarrow> targetPath env = Inr h))
     \<and> (exportCmdTargetDir env = ''~/'' @ rest \<longrightarrow>
          expandHome env (''~/'' @ rest) = Inr (Join h rest)
          \<and> Join h rest = Clean (h @ ''/'' @ rest)
          \<and> targetPath env = absClean env (h @ ''/'' @ rest))"
proof (intro impI conjI)
  assume h: "UserHomeDir env = Inr h"
  then show "expandHome env ''~'' = Inr h" by (simp add: expandHome_def HasPrefix_def)
next
  assume h: "UserHomeDir env = Inr h" and f: "exportCmdTargetDir env = ''~''"
  then show "targetPath env = absClean env h"
    by (simp add: targetPath_def expandHome_def HasPrefix_def)
next
  assume h: "UserHomeDir env = Inr h" and f: "exportCmdTargetDir env = ''~''"
    and c: "IsAbs h \<and> Clean h = h"
  then show "targetPath env = Inr h"
    by (simp add: targetPath_def expandHome_def HasPrefix_def absClean_def Abs_def)
next
  assume h: "UserHomeDir env = Inr h"
  then show "expandHome env (''~/'' @ rest) = Inr (Join h rest)"
    by (simp add: expandHome_def HasPrefix_def)
next
  assume h: "UserHomeDir env = Inr h"
  then show "Join h rest = Clean (h @ ''/'' @ rest)"
    by (simp add: Join_def UserHomeDir_nonempty)
next
  assume h: "UserHomeDir env = Inr h" and f: "exportCmdTargetDir env = ''~/'' @ rest"
  then have "targetPath env = absClean env (Join h rest)"
    by (simp add: targetPath_def expandHome_def HasPrefix_def)
  then show "targetPath env = absClean env (h @ ''/'' @ rest)"
    using h by (simp add: absClean_Join UserHomeDir_nonempty)
qed

text \<open>
  The claim as it was stated fails twice. With \<^verbatim>\<open>$HOME\<close> set to \<^verbatim>\<open>/home/u/\<close> the flag \<^verbatim>\<open>~\<close>
  resolves to \<^verbatim>\<open>/home/u\<close>, which is not the home directory as the system gives it. And
  for the flag \<^verbatim>\<open>~/a/../b\<close> the value before the step that makes absolute and cleans is
  \<^verbatim>\<open>/home/u/b\<close>, not \<^verbatim>\<open>/home/u/a/../b\<close>.
\<close>

theorem tilde_expansion_counterexample:
  "exportCmdTargetDir envHomeSlash = ''~''
   \<and> UserHomeDir envHomeSlash = Inr ''/home/u/''
   \<and> fst (resolveTargetDirForExport envHomeSlash worldW) = Inr ''/home/u''
   \<and> exportCmdTargetDir envHomeRest = ''~/a/../b''
   \<and> UserHomeDir envHomeRest = Inr ''/home/u''
   \<and> expandHome envHomeRest ''~/a/../b'' = Inr ''/home/u/b''"
  by code_simp

theorem tilde_expansion_witness:
  "expandHome envHomeSlash ''~'' = Inr ''/home/u/''
   \<and> targetPath envHomeSlash = Inr ''/home/u''
   \<and> targetPath (envHomeSlash\<lparr>HOME := ''/home/u''\<rparr>) = Inr ''/home/u''
   \<and> expandHome envHomeRest ''~/a/../b'' = Inr ''/home/u/b''
   \<and> ''/home/u/b'' = Clean ''/home/u/a/../b''
   \<and> targetPath envHomeRest = Inr ''/home/u/b''"
proof -
  have h1: "UserHomeDir envHomeSlash = Inr ''/home/u/''" by code_simp
  have f1: "exportCmdTargetDir envHomeSlash = ''~''" by code_simp
  have a1: "absClean envHomeSlash ''/home/u/'' = Inr ''/home/u''" by code_simp
  have h2: "UserHomeDir (envHomeSlash\<lparr>HOME := ''/home/u''\<rparr>) = Inr ''/home/u''" by code_simp
  have f2: "exportCmdTargetDir (envHomeSlash\<lparr>HOME := ''/home/u''\<rparr>) = ''~''" by code_simp
  have c2: "IsAbs ''/home/u'' \<and> Clean ''/home/u'' = ''/home/u''" by code_simp
  have h3: "UserHomeDir envHomeRest = Inr ''/home/u''" by code_simp
  have f3: "exportCmdTargetDir envHomeRest = ''~/'' @ ''a/../b''" by code_simp
  have j3: "Join ''/home/u'' ''a/../b'' = ''/home/u/b''" by code_simp
  have a3: "absClean envHomeRest (''/home/u'' @ ''/'' @ ''a/../b'') = Inr ''/home/u/b''" by code_simp
  from tilde_expansion [of envHomeSlash "''/home/u/''"] h1 f1 a1
  have 1: "expandHome envHomeSlash ''~'' = Inr ''/home/u/'' \<and> targetPath envHomeSlash = Inr ''/home/u''"
    by simp
  from tilde_expansion [of "envHomeSlash\<lparr>HOME := ''/home/u''\<rparr>" "''/home/u''"] h2 f2 c2
  have 2: "targetPath (envHomeSlash\<lparr>HOME := ''/home/u''\<rparr>) = Inr ''/home/u''" by blast
  from tilde_expansion [of envHomeRest "''/home/u''" "''a/../b''"] h3 f3 j3 a3
  have 3: "expandHome envHomeRest ''~/a/../b'' = Inr ''/home/u/b''
     \<and> ''/home/u/b'' = Clean ''/home/u/a/../b'' \<and> targetPath envHomeRest = Inr ''/home/u/b''"
    by simp
  from 1 2 3 show ?thesis by simp
qed

section \<open>Facts about the run\<close>

lemma isCalled_simps [simp]:
  "isCalled (Called a)" "\<not> isCalled (Printed s)" "\<not> isCalled (Created p)" "\<not> isCalled (Wrote p d)"
  by (simp_all add: isCalled_def)

lemma trace_Printf [simp]: "trace (Printf s w) = trace w @ [Printed s]"
  by (simp add: Printf_def)

lemma fs_Printf [simp]: "fs (Printf s w) = fs w"
  by (simp add: Printf_def)

lemma trace_Println [simp]: "trace (Println s w) = trace w @ [Printed (s @ nl)]"
  by (simp add: Println_def)

lemma fs_Println [simp]: "fs (Println s w) = fs w"
  by (simp add: Println_def)

lemma trace_call [simp]: "trace (call a w) = trace w @ [Called a]"
  by (simp add: call_def)

lemma fs_call [simp]: "fs (call a w) = fs w"
  by (simp add: call_def)

lemma Mkdir_cases:
  assumes "Mkdir env p w = (r, w')"
  shows "(r \<noteq> None \<and> w' = w) \<or>
         (r = None \<and> fskey p \<noteq> [] \<and> fault env OpMkdir p = None \<and> lookupN (fs w) (fskey p) = None
          \<and> lookupN (fs w) (butlast (fskey p)) = Some DirN
          \<and> w' = w\<lparr>fs := AList.update (fskey p) DirN (fs w), trace := trace w @ [Created p]\<rparr>)"
  using assms mkdirAt_cases [of env p "fskey p" w r w'] by (simp add: Mkdir_def)

lemma resolve_events:
  assumes "resolveTargetDirForExport env w = (r, w')"
  shows "\<exists>ps. trace w' = trace w @ map Created ps"
  using resolve_cases [OF assms] by (auto dest: MkdirAll_trace)

lemma setup_events:
  assumes "setupExport env w = (r, w4)"
  shows "\<exists>evs. trace w4 = trace w @ evs \<and> \<not> list_ex isCalled evs
          \<and> (\<forall>g s. r = Inr (g, s) \<longrightarrow>
                (\<exists>d. targetPath env = Inr d \<and> g = Join d exportToolGroupsDir
                     \<and> s = Join d exportMcpServersDir
                     \<and> Created g \<in> set evs \<and> Created s \<in> set evs))"
proof -
  obtain r1 w1 where res: "resolveTargetDirForExport env w = (r1, w1)"
    by (cases "resolveTargetDirForExport env w")
  from resolve_events [OF res] obtain ps where t1: "trace w1 = trace w @ map Created ps" by blast
  have nc: "\<not> list_ex isCalled (map Created ps)" by (simp add: list_ex_iff)
  show ?thesis
  proof (cases r1)
    case (Inl e)
    with assms res have "w4 = w1 \<and> (\<exists>e'. r = Inl e')" by (auto simp: setupExport_def)
    with t1 nc show ?thesis by auto
  next
    case (Inr d)
    define g where "g = Join d exportToolGroupsDir"
    define s where "s = Join d exportMcpServersDir"
    define w2 where "w2 = Printf (''Creating subdirectories inside '' @ d @ nl @ nl) w1"
    have t2: "trace w2 = trace w1 @ [Printed (''Creating subdirectories inside '' @ d @ nl @ nl)]"
      by (simp add: w2_def)
    have tp: "targetPath env = Inr d" using res Inr by (auto dest: resolve_targetPath)
    obtain r3 w3 where m1: "Mkdir env g w2 = (r3, w3)" by (cases "Mkdir env g w2")
    show ?thesis
    proof (cases r3)
      case (Some e)
      with assms res Inr m1 have "w4 = w3 \<and> (\<exists>e'. r = Inl e')"
        by (auto simp: setupExport_def Let_def g_def w2_def)
      moreover have "w3 = w2" using Mkdir_cases [OF m1] Some by auto
      ultimately show ?thesis using t1 t2 by (auto simp: list_ex_iff)
    next
      case None
      then have t3: "trace w3 = trace w2 @ [Created g]" using Mkdir_cases [OF m1] by auto
      obtain r4 w4' where m2: "Mkdir env s w3 = (r4, w4')" by (cases "Mkdir env s w3")
      show ?thesis
      proof (cases r4)
        case (Some e)
        with assms res Inr m1 m2 None have "w4 = w4' \<and> (\<exists>e'. r = Inl e')"
          by (auto simp: setupExport_def Let_def g_def s_def w2_def)
        moreover have "w4' = w3" using Mkdir_cases [OF m2] Some by auto
        ultimately show ?thesis using t1 t2 t3 by (auto simp: list_ex_iff)
      next
        case None
        then have t4: "trace w4' = trace w3 @ [Created s]" using Mkdir_cases [OF m2] by auto
        from assms res Inr m1 m2 None \<open>r3 = None\<close> have "w4 = w4' \<and> r = Inr (g, s)"
          by (auto simp: setupExport_def Let_def g_def s_def w2_def)
        then show ?thesis using t1 t2 t3 t4 tp g_def s_def by (auto simp: list_ex_iff)
      qed
    qed
  qed
qed

lemma writeJSON_events:
  assumes "writeJSONConfigFile env dir name e w = (r, w')"
  shows "\<exists>evs. trace w' = trace w @ evs"
  using writeJSON_cases [OF assms] by (auto dest: WriteFile_trace)

lemma writeEntities_events:
  "writeEntities env dir es w = (r, w') \<Longrightarrow> \<exists>evs. trace w' = trace w @ evs"
proof (induction es arbitrary: w)
  case Nil
  then show ?case by simp
next
  case (Cons x xs)
  obtain r1 w1 where 1: "writeJSONConfigFile env dir (Name x) x w = (r1, w1)"
    by (cases "writeJSONConfigFile env dir (Name x) x w")
  from writeJSON_events [OF 1] obtain e1 where t1: "trace w1 = trace w @ e1" by blast
  show ?case
  proof (cases r1)
    case None
    with Cons.prems 1 have "writeEntities env dir xs w1 = (r, w')" by simp
    from Cons.IH [OF this] t1 show ?thesis by auto
  next
    case (Some e)
    with Cons.prems 1 t1 show ?thesis by auto
  qed
qed

lemma exportToolGroups_Inl:
  "toolGroupConfigs env = Inl e \<Longrightarrow>
   exportToolGroups env g w =
     (None, Printf (''warning: failed to fetch tool group configurations: '' @ message e @ nl)
              (groupsCalled w))"
  by (simp add: exportToolGroups_def groupsCalled_def)

lemma exportToolGroups_Nil:
  "toolGroupConfigs env = Inr [] \<Longrightarrow>
   exportToolGroups env g w = (None, Println ''No Tool Groups found.'' (groupsCalled w))"
  by (simp add: exportToolGroups_def groupsCalled_def)

lemma exportToolGroups_Cons:
  "toolGroupConfigs env = Inr gs \<Longrightarrow> gs \<noteq> [] \<Longrightarrow>
   exportToolGroups env g w = writeEntities env g gs (groupsStart g w)"
  by (simp add: exportToolGroups_def groupsCalled_def groupsStart_def)

lemma exportMcpServers_Inl:
  "serverConfigs env = Inl e \<Longrightarrow>
   exportMcpServers env s w =
     (None, Printf (''warning: failed to fetch mcp server configurations: '' @ message e)
              (serversCalled w))"
  by (simp add: exportMcpServers_def serversCalled_def)

lemma exportMcpServers_Nil:
  "serverConfigs env = Inr [] \<Longrightarrow>
   exportMcpServers env s w = (None, Println ''No MCP Servers found.'' (serversCalled w))"
  by (simp add: exportMcpServers_def serversCalled_def)

lemma exportMcpServers_Cons:
  "serverConfigs env = Inr ss \<Longrightarrow> ss \<noteq> [] \<Longrightarrow>
   exportMcpServers env s w = writeEntities env s ss (serversStart s w)"
  by (simp add: exportMcpServers_def serversCalled_def serversStart_def)

lemma exportToolGroups_events:
  assumes "exportToolGroups env g w = (r, w')"
  shows "\<exists>evs. trace w' = trace w @ evs"
proof (cases "toolGroupConfigs env")
  case (Inl e)
  with assms show ?thesis by (auto simp: exportToolGroups_Inl groupsCalled_def)
next
  case (Inr gs)
  show ?thesis
  proof (cases "gs = []")
    case True
    with assms Inr show ?thesis by (auto simp: exportToolGroups_Nil groupsCalled_def)
  next
    case False
    with assms Inr have "writeEntities env g gs (groupsStart g w) = (r, w')"
      by (simp add: exportToolGroups_Cons)
    from writeEntities_events [OF this] show ?thesis
      by (auto simp: groupsStart_def groupsCalled_def)
  qed
qed

lemma exportMcpServers_events:
  assumes "exportMcpServers env s w = (r, w')"
  shows "\<exists>evs. trace w' = trace w @ evs"
proof (cases "serverConfigs env")
  case (Inl e)
  with assms show ?thesis by (auto simp: exportMcpServers_Inl serversCalled_def)
next
  case (Inr ss)
  show ?thesis
  proof (cases "ss = []")
    case True
    with assms Inr show ?thesis by (auto simp: exportMcpServers_Nil serversCalled_def)
  next
    case False
    with assms Inr have "writeEntities env s ss (serversStart s w) = (r, w')"
      by (simp add: exportMcpServers_Cons)
    from writeEntities_events [OF this] show ?thesis
      by (auto simp: serversStart_def serversCalled_def)
  qed
qed

lemma runExport_cases:
  assumes "runExport env w = (r, w')"
  shows "(\<exists>e. setupExport env w = (Inl e, w') \<and> r = Some e) \<or>
         (\<exists>g s w4 evs. setupExport env w = (Inr (g, s), w4) \<and> trace w' = trace w4 @ evs)"
proof -
  obtain r4 w4 where su: "setupExport env w = (r4, w4)" by (cases "setupExport env w")
  show ?thesis
  proof (cases r4)
    case (Inl e)
    with assms su show ?thesis by (auto simp: runExport_def)
  next
    case (Inr gs)
    obtain g s where gs: "gs = (g, s)" by (cases gs)
    obtain r5 w5 where g5: "exportToolGroups env g w4 = (r5, w5)"
      by (cases "exportToolGroups env g w4")
    from exportToolGroups_events [OF g5] obtain e5 where t5: "trace w5 = trace w4 @ e5" by blast
    show ?thesis
    proof (cases r5)
      case (Some e)
      with assms su Inr gs g5 have "w' = w5" by (auto simp: runExport_def)
      with su Inr gs t5 show ?thesis by auto
    next
      case None
      obtain r6 w6 where g6: "exportMcpServers env s w5 = (r6, w6)"
        by (cases "exportMcpServers env s w5")
      from exportMcpServers_events [OF g6] obtain e6 where t6: "trace w6 = trace w5 @ e6" by blast
      from assms su Inr gs g5 None g6 have "w' = w6 \<or> w' = Println (nl @ ''Export complete!'') w6"
        by (cases r6) (auto simp: runExport_def)
      then have "\<exists>evs. trace w' = trace w4 @ evs"
        using t5 t6 by auto
      with su Inr gs show ?thesis by auto
    qed
  qed
qed

lemma takeWhile_prefix:
  "\<not> list_ex P xs \<Longrightarrow> takeWhile (\<lambda>e. \<not> P e) (xs @ ys) = xs @ takeWhile (\<lambda>e. \<not> P e) ys"
  by (induction xs) auto

lemma cleanKey_render: "list_all normalSeg ks \<Longrightarrow> cleanKey (render ks) = ks"
  by (simp add: cleanKey_def elements_render normal_plain cleanElems_normal)

lemma normalSeg_groups: "normalSeg exportToolGroupsDir"
  by (simp add: exportToolGroupsDir_def normalSeg_def plainSeg_def)

lemma normalSeg_servers: "normalSeg exportMcpServersDir"
  by (simp add: exportMcpServersDir_def normalSeg_def plainSeg_def)

lemma Join_child:
  "list_all normalSeg ks \<Longrightarrow> normalSeg c \<Longrightarrow> Join (render ks) c = render (ks @ [c])"
  by (rule Join_render) (simp_all add: elements_single normalSeg_def)

lemma setup_dirs:
  assumes "setupExport env w = (Inr (g, s), w4)" and "wdAbsolute env"
  shows "\<exists>ks. list_all normalSeg ks \<and> targetPath env = Inr (render ks)
           \<and> g = render (ks @ [exportToolGroupsDir]) \<and> s = render (ks @ [exportMcpServersDir])"
proof -
  from setup_events [OF assms(1)] obtain d where
    d: "targetPath env = Inr d" "g = Join d exportToolGroupsDir" "s = Join d exportMcpServersDir"
    by blast
  from targetPath_render [OF assms(2) d(1)] obtain ks where
    ks: "list_all normalSeg ks" "d = render ks" by blast
  with d show ?thesis by (auto simp: Join_child normalSeg_groups normalSeg_servers)
qed







lemma ReadDir_Nil:
  "ReadDir env d w = Inr [] \<Longrightarrow>
   lookupN (fs w) (fskey d) = Some DirN \<and> dirEntries (fs w) (fskey d) = []"
  by (auto simp: ReadDir_def split: option.splits node.splits)

lemma resolve_ok_facts:
  assumes "resolveTargetDirForExport env w = (Inr d, w1)" and "wfFS (fs w)"
  shows "lookupN (fs w1) (fskey d) = Some DirN \<and> dirEntries (fs w1) (fskey d) = []
         \<and> wfFS (fs w1) \<and> targetPath env = Inr d"
proof -
  have tp: "targetPath env = Inr d" using assms(1) by (rule resolve_targetPath)
  with resolve_cases [OF assms(1)] obtain r1 where
    c: "targetPath env = Inr d" "MkdirAll env d w = (r1, w1)" "ReadDir env d w1 = Inr []"
    by auto
  from c(2) assms(2) have "wfFS (fs w1)" by (rule MkdirAll_wf)
  with c ReadDir_Nil [OF c(3)] show ?thesis by simp
qed

lemma dirEntries_Nil_iff:
  "dirEntries t k = [] \<longleftrightarrow> (\<forall>q \<in> fst ` set t. q = [] \<or> butlast q \<noteq> k)"
  by (auto simp: dirEntries_def filter_empty_conv)

lemma dirEntries_update_other:
  "butlast k \<noteq> q \<Longrightarrow> dirEntries t q = [] \<Longrightarrow> dirEntries (AList.update k v t) q = []"
  by (auto simp: dirEntries_Nil_iff dom_update)

lemma wf_absent_no_entries:
  assumes "wfFS t" and "lookupN t k = None"
  shows "dirEntries t k = []"
proof -
  have "q = [] \<or> butlast q \<noteq> k" if "q \<in> fst ` set t" for q
  proof -
    from that obtain n where "(q, n) \<in> set t" by auto
    with assms(1) have "lookupN t (butlast q) = Some DirN" by (auto simp: wfFS_def list_all_iff)
    with assms(2) show ?thesis by auto
  qed
  then show ?thesis by (simp add: dirEntries_Nil_iff)
qed

lemma Mkdir_ok:
  assumes "fault env OpMkdir p = None" and "lookupN (fs w) (fskey p) = None"
    and "lookupN (fs w) (butlast (fskey p)) = Some DirN"
  shows "Mkdir env p w =
         (None, w\<lparr>fs := AList.update (fskey p) DirN (fs w), trace := trace w @ [Created p]\<rparr>)"
  using assms by (simp add: Mkdir_def mkdirAt_ok)

lemma setup_ok:
  assumes "wdAbsolute env" and "wfFS (fs w)"
    and "resolveTargetDirForExport env w = (Inr d, w1)"
    and "fault env OpMkdir (Join d exportToolGroupsDir) = None"
    and "fault env OpMkdir (Join d exportMcpServersDir) = None"
  defines "g \<equiv> Join d exportToolGroupsDir" and "s \<equiv> Join d exportMcpServersDir"
  shows "\<exists>w4 ks. setupExport env w = (Inr (g, s), w4)
          \<and> trace w4 = trace w1 @ [Printed (creatingMsg d), Created g, Created s]
          \<and> list_all normalSeg ks \<and> d = render ks
          \<and> g = render (ks @ [exportToolGroupsDir]) \<and> s = render (ks @ [exportMcpServersDir])
          \<and> lookupN (fs w4) (ks @ [exportToolGroupsDir]) = Some DirN
          \<and> lookupN (fs w4) (ks @ [exportMcpServersDir]) = Some DirN
          \<and> dirEntries (fs w4) (ks @ [exportToolGroupsDir]) = []
          \<and> dirEntries (fs w4) (ks @ [exportMcpServersDir]) = []"
proof -
  from resolve_ok_facts [OF assms(3,2)] have
    f: "lookupN (fs w1) (fskey d) = Some DirN" "dirEntries (fs w1) (fskey d) = []"
       "wfFS (fs w1)" "targetPath env = Inr d" by auto
  from targetPath_render [OF assms(1) f(4)] obtain ks where
    ks: "list_all normalSeg ks" "d = render ks" by blast
  let ?gk = "ks @ [exportToolGroupsDir]" and ?sk = "ks @ [exportMcpServersDir]"
  have g: "g = render ?gk" and s: "s = render ?sk"
    using ks by (simp_all add: g_def s_def Join_child normalSeg_groups normalSeg_servers)
  have kd: "fskey d = ks" using ks by (simp add: fskey_render)
  have kg: "fskey g = ?gk" using ks by (simp add: g fskey_render normalSeg_groups)
  have ksv: "fskey s = ?sk" using ks by (simp add: s fskey_render normalSeg_servers)
  have ne: "?gk \<noteq> ?sk" by (simp add: exportToolGroupsDir_def exportMcpServersDir_def)
  have ag: "lookupN (fs w1) ?gk = None" and as: "lookupN (fs w1) ?sk = None"
    using f(2) kd by (simp_all add: dirEntries_empty_child)
  have eg: "dirEntries (fs w1) ?gk = []" and es: "dirEntries (fs w1) ?sk = []"
    using f(3) ag as by (simp_all add: wf_absent_no_entries)
  define w2 where "w2 = Printf (creatingMsg d) w1"
  define w3 where "w3 = w2\<lparr>fs := AList.update ?gk DirN (fs w2), trace := trace w2 @ [Created g]\<rparr>"
  define w4 where "w4 = w3\<lparr>fs := AList.update ?sk DirN (fs w3), trace := trace w3 @ [Created s]\<rparr>"
  have m1: "Mkdir env g w2 = (None, w3)"
    unfolding w3_def kg [symmetric]
    using assms(4) ag f(1) kd kg by (intro Mkdir_ok) (simp_all add: w2_def g_def)
  have m2: "Mkdir env s w3 = (None, w4)"
    unfolding w4_def ksv [symmetric]
    using assms(5) as f(1) kd ksv ne
    by (intro Mkdir_ok) (simp_all add: w3_def w2_def s_def lookupN_update)
  have su: "setupExport env w = (Inr (g, s), w4)"
    using assms(3) m1 m2
    by (simp add: setupExport_def Let_def g_def s_def w2_def creatingMsg_def)
  have t: "trace w4 = trace w1 @ [Printed (creatingMsg d), Created g, Created s]"
    by (simp add: w4_def w3_def w2_def)
  have fs4: "fs w4 = AList.update ?sk DirN (AList.update ?gk DirN (fs w1))"
    by (simp add: w4_def w3_def w2_def)
  have l: "lookupN (fs w4) ?gk = Some DirN" "lookupN (fs w4) ?sk = Some DirN"
    using ne by (simp_all add: fs4 lookupN_update)
  have e: "dirEntries (fs w4) ?gk = []" "dirEntries (fs w4) ?sk = []"
    using eg es by (simp_all add: fs4 dirEntries_update_other)
  from su t ks g s l e show ?thesis by blast
qed

lemma write_two:
  assumes "IsAbs dir" and "lookupN (fs w0) (cleanKey dir) = Some DirN"
    and "dirEntries (fs w0) (cleanKey dir) = []"
    and "MarshalIndent env A [] ''  '' = Inr dA" and "MarshalIndent env B [] ''  '' = Inr dB"
    and "fault env OpWriteFile (configFile dir (Name A)) = None"
    and "fault env OpWriteFile (configFile dir (Name B)) = None"
  defines "fA \<equiv> configFile dir (Name A)" and "fB \<equiv> configFile dir (Name B)"
  shows "\<exists>w'. writeEntities env dir [A, B] w0 = (None, w')
          \<and> trace w' = trace w0 @ [Wrote fA dA, Wrote fB dB]
          \<and> fs w' = AList.update (fskey fB) (FileN dB) (AList.update (fskey fA) (FileN dA) (fs w0))"
proof -
  let ?dk = "cleanKey dir"
  have kA: "fskey fA = ?dk @ [fileElem (Name A)]" and kB: "fskey fB = ?dk @ [fileElem (Name B)]"
    using assms(1) by (simp_all add: fA_def fB_def fskey_configFile)
  define wA where "wA = w0\<lparr>fs := AList.update (fskey fA) (FileN dA) (fs w0),
                            trace := trace w0 @ [Wrote fA dA]\<rparr>"
  define wB where "wB = wA\<lparr>fs := AList.update (fskey fB) (FileN dB) (fs wA),
                            trace := trace wA @ [Wrote fB dB]\<rparr>"
  have "lookupN (fs w0) (fskey fA) = None" using assms(3) kA by (simp add: dirEntries_empty_child)
  then have "WriteFile env fA dA w0 = (None, wA)"
    unfolding wA_def using assms(2,6) kA by (intro WriteFile_ok) (simp_all add: fA_def)
  then have 1: "writeJSONConfigFile env dir (Name A) A w0 = (None, wA)"
    using assms(4) by (simp add: writeJSON_ok fA_def)
  have "lookupN (fs w0) (fskey fB) = None" using assms(3) kB by (simp add: dirEntries_empty_child)
  then have nb: "lookupN (fs wA) (fskey fB) \<noteq> Some DirN"
    using kA by (simp add: wA_def lookupN_update)
  have pb: "lookupN (fs wA) (butlast (fskey fB)) = Some DirN"
    using assms(2) kA kB by (simp add: wA_def lookupN_update)
  have "WriteFile env fB dB wA = (None, wB)"
    unfolding wB_def using nb pb assms(7) by (intro WriteFile_ok) (simp_all add: fB_def)
  then have 2: "writeJSONConfigFile env dir (Name B) B wA = (None, wB)"
    using assms(5) by (simp add: writeJSON_ok fB_def)
  have "writeEntities env dir [A, B] w0 = (None, wB)" using 1 2 by simp
  moreover have "trace wB = trace w0 @ [Wrote fA dA, Wrote fB dB]" by (simp add: wB_def wA_def)
  moreover have "fs wB = AList.update (fskey fB) (FileN dB) (AList.update (fskey fA) (FileN dA) (fs w0))"
    by (simp add: wB_def wA_def)
  ultimately show ?thesis by blast
qed

lemma Dir_configFile: "IsAbs dir \<Longrightarrow> Dir (configFile dir n) = Clean dir"
  using Dir_render_snoc [OF cleanKey_normal fileElem_normal, of dir n]
  by (simp add: configFile_render Clean_abs cleanKey_def)

lemma configFile_eq_iff:
  assumes "IsAbs dir"
  shows "(configFile dir a = configFile dir b) = (fskey (configFile dir a) = fskey (configFile dir b))"
proof
  assume "configFile dir a = configFile dir b"
  then show "fskey (configFile dir a) = fskey (configFile dir b)" by simp
next
  assume "fskey (configFile dir a) = fskey (configFile dir b)"
  then have "fileElem a = fileElem b" using assms by (simp add: fskey_configFile)
  then show "configFile dir a = configFile dir b" using assms by (simp add: configFile_render)
qed

lemma render_child_not_root: "c \<noteq> [] \<Longrightarrow> render (ks @ [c]) \<noteq> ''/''"
proof (cases "ks = []")
  case True
  assume "c \<noteq> []"
  with True show ?thesis by (simp add: render_def)
next
  case False
  then have "length (render (ks @ [c])) \<ge> 2" by (simp add: render_def joinSep_snoc)
  then show ?thesis by auto
qed

lemma category_written:
  assumes "IsAbs dir" and "lookupN (fs w0) (cleanKey dir) = Some DirN"
    and "dirEntries (fs w0) (cleanKey dir) = []"
    and "MarshalIndent env A [] ''  '' = Inr dA" and "MarshalIndent env B [] ''  '' = Inr dB"
    and "fault env OpWriteFile (configFile dir (Name A)) = None"
    and "fault env OpWriteFile (configFile dir (Name B)) = None"
    and "lookupN (fs w0) ok = Some DirN" and "dirEntries (fs w0) ok = []"
    and "ok \<noteq> cleanKey dir" and "length ok = length (cleanKey dir)"
  defines "fA \<equiv> configFile dir (Name A)" and "fB \<equiv> configFile dir (Name B)"
  shows "\<exists>w'. writeEntities env dir [A, B] w0 = (None, w')
          \<and> trace w' = trace w0 @ [Wrote fA dA, Wrote fB dB]
          \<and> stat w' fA = Some (FileN (if fA = fB then dB else dA))
          \<and> stat w' fB = Some (FileN dB)
          \<and> lookupN (fs w') ok = Some DirN \<and> dirEntries (fs w') ok = []"
proof -
  let ?dk = "cleanKey dir"
  have kA: "fskey fA = ?dk @ [fileElem (Name A)]" and kB: "fskey fB = ?dk @ [fileElem (Name B)]"
    using assms(1) by (simp_all add: fA_def fB_def fskey_configFile)
  from write_two [OF assms(1-7)] obtain w' where
    w: "writeEntities env dir [A, B] w0 = (None, w')"
       "trace w' = trace w0 @ [Wrote fA dA, Wrote fB dB]"
       "fs w' = AList.update (fskey fB) (FileN dB) (AList.update (fskey fA) (FileN dA) (fs w0))"
    by (auto simp: fA_def fB_def)
  have eq: "(fA = fB) = (fskey fA = fskey fB)"
    using assms(1) by (simp add: fA_def fB_def configFile_eq_iff)
  have sA: "stat w' fA = Some (FileN (if fA = fB then dB else dA))"
    using kA kB by (simp add: stat_def w(3) lookupN_update eq)
  have sB: "stat w' fB = Some (FileN dB)"
    using kB by (simp add: stat_def w(3) lookupN_update)
  have nk: "ok \<noteq> fskey fA" "ok \<noteq> fskey fB" using assms(11) kA kB by auto
  have lo: "lookupN (fs w') ok = Some DirN"
    using nk assms(8) kA kB by (simp add: w(3) lookupN_update)
  have "butlast (fskey fA) \<noteq> ok" "butlast (fskey fB) \<noteq> ok" using assms(10) kA kB by auto
  then have eo: "dirEntries (fs w') ok = []"
    using assms(9) by (simp add: w(3) dirEntries_update_other)
  from w sA sB lo eo show ?thesis by blast
qed

section \<open>The subdirectories come before the listing operations\<close>

text \<open>
  Claim C6. In every run the events are added to the trace in order. If a listing
  operation is invoked at all, then before the first invocation both category
  directories, \<^verbatim>\<open>groups\<close> and \<^verbatim>\<open>servers\<close> under the resolved target, have been created.
  If the creation of the first or of the second directory fails, the run returns the
  error of line 116 or of line 120, and no listing operation is invoked in that run.
\<close>

theorem subdirs_before_listing:
  assumes "runExport env w = (r, w')"
  shows "\<exists>evs. trace w' = trace w @ evs
     \<and> (list_ex isCalled evs \<longrightarrow>
          (\<exists>d. targetPath env = Inr d
             \<and> Created (Join d exportToolGroupsDir) \<in> set (takeWhile (\<lambda>e. \<not> isCalled e) evs)
             \<and> Created (Join d exportMcpServersDir) \<in> set (takeWhile (\<lambda>e. \<not> isCalled e) evs)))
     \<and> (\<forall>d w1 w3 e. resolveTargetDirForExport env w = (Inr d, w1)
            \<and> Mkdir env (Join d exportToolGroupsDir) (Printf (creatingMsg d) w1) = (Some e, w3) \<longrightarrow>
            r = Some (Error (''failed to create groups directory: '' @ message e))
            \<and> \<not> list_ex isCalled evs)
     \<and> (\<forall>d w1 w3 w4 e. resolveTargetDirForExport env w = (Inr d, w1)
            \<and> Mkdir env (Join d exportToolGroupsDir) (Printf (creatingMsg d) w1) = (None, w3)
            \<and> Mkdir env (Join d exportMcpServersDir) w3 = (Some e, w4) \<longrightarrow>
            r = Some (Error (''failed to create mcp servers directory: '' @ message e))
            \<and> \<not> list_ex isCalled evs)"
proof -
  from runExport_cases [OF assms] show ?thesis
  proof
    assume "\<exists>e. setupExport env w = (Inl e, w') \<and> r = Some e"
    then obtain e0 where su: "setupExport env w = (Inl e0, w')" and r: "r = Some e0" by blast
    from setup_events [OF su] obtain evs where
      ev: "trace w' = trace w @ evs" "\<not> list_ex isCalled evs" by blast
    have a: "r = Some (Error (''failed to create groups directory: '' @ message e))"
      if "resolveTargetDirForExport env w = (Inr d, w1)"
         "Mkdir env (Join d exportToolGroupsDir) (Printf (creatingMsg d) w1) = (Some e, w3)"
      for d w1 w3 e
      using that su r by (simp add: setupExport_def Let_def creatingMsg_def)
    have b: "r = Some (Error (''failed to create mcp servers directory: '' @ message e))"
      if "resolveTargetDirForExport env w = (Inr d, w1)"
         "Mkdir env (Join d exportToolGroupsDir) (Printf (creatingMsg d) w1) = (None, w3)"
         "Mkdir env (Join d exportMcpServersDir) w3 = (Some e, w4)"
      for d w1 w3 w4 e
      using that su r by (simp add: setupExport_def Let_def creatingMsg_def)
    from ev a b show ?thesis by blast
  next
    assume "\<exists>g s w4 evs. setupExport env w = (Inr (g, s), w4) \<and> trace w' = trace w4 @ evs"
    then obtain g s w4 evs2 where su: "setupExport env w = (Inr (g, s), w4)"
      and t: "trace w' = trace w4 @ evs2" by blast
    from setup_events [OF su] obtain evs1 d where
      ev: "trace w4 = trace w @ evs1" "\<not> list_ex isCalled evs1" "targetPath env = Inr d"
        "g = Join d exportToolGroupsDir" "s = Join d exportMcpServersDir"
        "Created g \<in> set evs1" "Created s \<in> set evs1" by blast
    have tw: "takeWhile (\<lambda>e. \<not> isCalled e) (evs1 @ evs2)
               = evs1 @ takeWhile (\<lambda>e. \<not> isCalled e) evs2"
      using ev(2) by (rule takeWhile_prefix)
    have a: False
      if "resolveTargetDirForExport env w = (Inr d, w1)"
         "Mkdir env (Join d exportToolGroupsDir) (Printf (creatingMsg d) w1) = (Some e, w3)"
      for d w1 w3 e
      using that su by (simp add: setupExport_def Let_def creatingMsg_def)
    have b: False
      if "resolveTargetDirForExport env w = (Inr d, w1)"
         "Mkdir env (Join d exportToolGroupsDir) (Printf (creatingMsg d) w1) = (None, w3)"
         "Mkdir env (Join d exportMcpServersDir) w3 = (Some e, w4)"
      for d w1 w3 w4 e
      using that su by (simp add: setupExport_def Let_def creatingMsg_def)
    have "trace w' = trace w @ (evs1 @ evs2)" using t ev(1) by simp
    moreover have "\<exists>d. targetPath env = Inr d
             \<and> Created (Join d exportToolGroupsDir) \<in> set (takeWhile (\<lambda>e. \<not> isCalled e) (evs1 @ evs2))
             \<and> Created (Join d exportMcpServersDir) \<in> set (takeWhile (\<lambda>e. \<not> isCalled e) (evs1 @ evs2))"
      using ev tw by auto
    ultimately show ?thesis using a b by blast
  qed
qed

theorem subdirs_before_listing_witness:
  "Created ''/x/groups'' \<in> set (takeWhile (\<lambda>e. \<not> isCalled e) (trace (snd (runExport envX worldW))))
   \<and> Created ''/x/servers'' \<in> set (takeWhile (\<lambda>e. \<not> isCalled e) (trace (snd (runExport envX worldW))))
   \<and> fst (runExport envNoGroups worldW)
       = Some (Error ''failed to create groups directory: permission denied'')
   \<and> \<not> list_ex isCalled (trace (snd (runExport envNoGroups worldW)))
   \<and> fst (runExport envNoServers worldW)
       = Some (Error ''failed to create mcp servers directory: permission denied'')
   \<and> \<not> list_ex isCalled (trace (snd (runExport envNoServers worldW)))"
proof -
  have tw: "trace worldW = []" by code_simp
  have r1: "runExport envX worldW = (fst (runExport envX worldW), snd (runExport envX worldW))"
    by simp
  have c1: "list_ex isCalled (trace (snd (runExport envX worldW)))" by code_simp
  have p1: "targetPath envX = Inr ''/x''" by code_simp
  have j: "Join ''/x'' exportToolGroupsDir = ''/x/groups''"
    "Join ''/x'' exportMcpServersDir = ''/x/servers''" by code_simp+
  from subdirs_before_listing [OF r1] tw c1 p1 j
  have 1: "Created ''/x/groups'' \<in> set (takeWhile (\<lambda>e. \<not> isCalled e) (trace (snd (runExport envX worldW))))
   \<and> Created ''/x/servers'' \<in> set (takeWhile (\<lambda>e. \<not> isCalled e) (trace (snd (runExport envX worldW))))"
    by auto
  have r2: "runExport envNoGroups worldW
            = (fst (runExport envNoGroups worldW), snd (runExport envNoGroups worldW))" by simp
  have h2: "resolveTargetDirForExport envNoGroups worldW
            = (Inr ''/x'', snd (resolveTargetDirForExport envNoGroups worldW))
     \<and> Mkdir envNoGroups (Join ''/x'' exportToolGroupsDir)
          (Printf (creatingMsg ''/x'') (snd (resolveTargetDirForExport envNoGroups worldW)))
        = (Some (Error ''permission denied''),
           Printf (creatingMsg ''/x'') (snd (resolveTargetDirForExport envNoGroups worldW)))"
    by code_simp
  from subdirs_before_listing [OF r2] tw h2
  have 2: "fst (runExport envNoGroups worldW)
       = Some (Error ''failed to create groups directory: permission denied'')
   \<and> \<not> list_ex isCalled (trace (snd (runExport envNoGroups worldW)))"
    by fastforce
  have r3: "runExport envNoServers worldW
            = (fst (runExport envNoServers worldW), snd (runExport envNoServers worldW))" by simp
  have h3: "resolveTargetDirForExport envNoServers worldW
            = (Inr ''/x'', snd (resolveTargetDirForExport envNoServers worldW))
     \<and> Mkdir envNoServers (Join ''/x'' exportToolGroupsDir)
          (Printf (creatingMsg ''/x'') (snd (resolveTargetDirForExport envNoServers worldW)))
        = (None, snd (Mkdir envNoServers (Join ''/x'' exportToolGroupsDir)
          (Printf (creatingMsg ''/x'') (snd (resolveTargetDirForExport envNoServers worldW)))))
     \<and> Mkdir envNoServers (Join ''/x'' exportMcpServersDir)
          (snd (Mkdir envNoServers (Join ''/x'' exportToolGroupsDir)
             (Printf (creatingMsg ''/x'') (snd (resolveTargetDirForExport envNoServers worldW)))))
        = (Some (Error ''permission denied''),
           snd (Mkdir envNoServers (Join ''/x'' exportToolGroupsDir)
             (Printf (creatingMsg ''/x'') (snd (resolveTargetDirForExport envNoServers worldW)))))"
    by code_simp
  from subdirs_before_listing [OF r3] tw h3
  have 3: "fst (runExport envNoServers worldW)
       = Some (Error ''failed to create mcp servers directory: permission denied'')
   \<and> \<not> list_ex isCalled (trace (snd (runExport envNoServers worldW)))"
    by fastforce
  from 1 2 3 show ?thesis by simp
qed

section \<open>The resolved path is absolute and lexically normal\<close>



section \<open>Two entities with the same base name\<close>

text \<open>
  Claim C8. Let the entities \<open>es\<close> of a category have been written without error, \<open>e1\<close>
  among them, and let \<open>e2\<close> be listed after them with a name of the same base name. If
  \<open>e2\<close> can be serialized, writing it succeeds as well: the file of \<open>e1\<close>, which existed,
  is the file of \<open>e2\<close>, it is written once more, and afterwards it holds the serialization
  of \<open>e2\<close>, the entity listed later.
\<close>

theorem same_basename_overwrites:
  assumes "writeEntities env dir es w = (None, w1)" and "e1 \<in> set es"
    and "Base (Name e2) = Base (Name e1)"
    and "MarshalIndent env e2 [] ''  '' = Inr d2"
  shows "\<exists>w2 d1. writeEntities env dir (es @ [e2]) w = (None, w2)
       \<and> configFile dir (Name e2) = configFile dir (Name e1)
       \<and> stat w1 (configFile dir (Name e1)) = Some (FileN d1)
       \<and> stat w2 (configFile dir (Name e1)) = Some (FileN d2)
       \<and> trace w2 = trace w1 @ [Wrote (configFile dir (Name e1)) d2]"
proof -
  let ?f = "configFile dir (Name e1)"
  have same: "configFile dir (Name e2) = ?f" using assms(3) by (simp add: configFile_def)
  from assms(1,2) have wr: "written env w1 ?f" by (rule writeEntities_written)
  then obtain d1 where d1: "stat w1 ?f = Some (FileN d1)"
    by (auto simp: written_def split: option.splits node.splits)
  define w2 where "w2 = w1\<lparr>fs := AList.update (fskey ?f) (FileN d2) (fs w1),
                            trace := trace w1 @ [Wrote ?f d2]\<rparr>"
  have "WriteFile env ?f d2 w1 = (None, w2)"
    unfolding w2_def using wr d1 by (intro WriteFile_ok) (auto simp: written_def stat_def)
  then have j: "writeJSONConfigFile env dir (Name e2) e2 w1 = (None, w2)"
    and s2: "stat w2 ?f = Some (FileN d2)"
    using assms(4) same by (auto intro: writeJSON_ok dest: WriteFile_stat)
  have "writeEntities env dir (es @ [e2]) w = (None, w2)"
    using assms(1) j by (simp add: writeEntities_append)
  moreover have "trace w2 = trace w1 @ [Wrote ?f d2]" by (simp add: w2_def)
  ultimately show ?thesis using same d1 s2 by blast
qed

theorem same_basename_overwrites_witness:
  "\<exists>w2. writeEntities envX ''/x/groups'' ([entFirst] @ [entSecond]) worldX = (None, w2)
     \<and> configFile ''/x/groups'' (Name entSecond) = configFile ''/x/groups'' (Name entFirst)
     \<and> stat w2 (configFile ''/x/groups'' (Name entFirst))
         = Some (FileN (''{'' @ nl @ ''  b/x: 2'' @ nl @ ''}''))"
proof -
  have h1: "writeEntities envX ''/x/groups'' [entFirst] worldX
            = (None, snd (writeEntities envX ''/x/groups'' [entFirst] worldX))" by code_simp
  have h2: "entFirst \<in> set [entFirst]" by simp
  have h3: "Base (Name entSecond) = Base (Name entFirst)" by code_simp
  have h4: "MarshalIndent envX entSecond [] ''  '' = Inr (''{'' @ nl @ ''  b/x: 2'' @ nl @ ''}'')"
    by code_simp
  from same_basename_overwrites [OF h1 h2 h3 h4] show ?thesis by blast
qed

section \<open>The file of an entity and its content\<close>

text \<open>
  Claim C9. A successful \<^verbatim>\<open>writeJSONConfigFile\<close> writes one file, named by joining the
  directory with the base name of the entity's name and the suffix \<^verbatim>\<open>.json\<close> (for a clean
  absolute directory other than the root and a plain name this is the directory, a slash,
  the name and the suffix), and the file holds what \<^verbatim>\<open>json.MarshalIndent\<close> gives for that
  entity with the empty prefix and an indentation of two spaces. Two runs with the same
  encoder and the same entity, in any two environments, worlds and directories, leave the
  same content. The encoder is a function of the entity, so that it gives the same bytes
  for the same entity is part of the model.
\<close>

theorem config_file_content:
  assumes "MarshalIndent env1 = MarshalIndent env2"
    and "writeJSONConfigFile env1 dir1 name e w1 = (None, w1')"
    and "writeJSONConfigFile env2 dir2 name e w2 = (None, w2')"
  shows "(\<exists>data. MarshalIndent env1 e [] ''  '' = Inr data
          \<and> stat w1' (configFile dir1 name) = Some (FileN data)
          \<and> stat w2' (configFile dir2 name) = Some (FileN data)
          \<and> trace w1' = trace w1 @ [Wrote (configFile dir1 name) data]
          \<and> trace w2' = trace w2 @ [Wrote (configFile dir2 name) data])
       \<and> configFile dir1 name = Join dir1 (Base name @ ''.json'')
       \<and> (IsAbs dir1 \<and> Clean dir1 = dir1 \<and> dir1 \<noteq> ''/'' \<and> normalSeg name \<longrightarrow>
            configFile dir1 name = dir1 @ ''/'' @ name @ ''.json'')"
proof -
  from writeJSON_cases [OF assms(2)] obtain d where
    d: "MarshalIndent env1 e [] ''  '' = Inr d" "WriteFile env1 (configFile dir1 name) d w1 = (None, w1')"
    by auto
  from writeJSON_cases [OF assms(3)] assms(1) d(1) have
    d': "WriteFile env2 (configFile dir2 name) d w2 = (None, w2')" by auto
  from d d' have "\<exists>data. MarshalIndent env1 e [] ''  '' = Inr data
          \<and> stat w1' (configFile dir1 name) = Some (FileN data)
          \<and> stat w2' (configFile dir2 name) = Some (FileN data)
          \<and> trace w1' = trace w1 @ [Wrote (configFile dir1 name) data]
          \<and> trace w2' = trace w2 @ [Wrote (configFile dir2 name) data]"
    by (auto dest: WriteFile_stat WriteFile_trace)
  then show ?thesis by (auto simp: configFile_literal) (simp add: configFile_def)
qed

theorem config_file_content_witness:
  "stat (snd (writeJSONConfigFile envX ''/x/groups'' ''prod-group'' entProd worldX))
        ''/x/groups/prod-group.json'' = Some (FileN (''{'' @ nl @ ''  prod-group: cfg'' @ nl @ ''}''))
   \<and> stat (snd (writeJSONConfigFile (envX\<lparr>HOME := []\<rparr>) ''/y/groups'' ''prod-group'' entProd worldY))
        ''/y/groups/prod-group.json'' = Some (FileN (''{'' @ nl @ ''  prod-group: cfg'' @ nl @ ''}''))
   \<and> configFile ''/x/groups'' ''prod-group'' = ''/x/groups/prod-group.json''"
proof -
  let ?w1 = "snd (writeJSONConfigFile envX ''/x/groups'' ''prod-group'' entProd worldX)"
  let ?w2 = "snd (writeJSONConfigFile (envX\<lparr>HOME := []\<rparr>) ''/y/groups'' ''prod-group'' entProd worldY)"
  have h1: "MarshalIndent envX = MarshalIndent (envX\<lparr>HOME := []\<rparr>)" by simp
  have h2: "writeJSONConfigFile envX ''/x/groups'' ''prod-group'' entProd worldX = (None, ?w1)"
    by code_simp
  have h3: "writeJSONConfigFile (envX\<lparr>HOME := []\<rparr>) ''/y/groups'' ''prod-group'' entProd worldY
            = (None, ?w2)"
    by code_simp
  have m: "MarshalIndent envX entProd [] ''  '' = Inr (''{'' @ nl @ ''  prod-group: cfg'' @ nl @ ''}'')"
    by code_simp
  have c: "IsAbs ''/x/groups'' \<and> Clean ''/x/groups'' = ''/x/groups'' \<and> ''/x/groups'' \<noteq> ''/''
           \<and> normalSeg ''prod-group''" by code_simp
  have f2: "configFile ''/y/groups'' ''prod-group'' = ''/y/groups/prod-group.json''" by code_simp
  note t = config_file_content [OF h1 h2 h3]
  from t obtain data where d: "MarshalIndent envX entProd [] ''  '' = Inr data"
    "stat ?w1 (configFile ''/x/groups'' ''prod-group'') = Some (FileN data)"
    "stat ?w2 (configFile ''/y/groups'' ''prod-group'') = Some (FileN data)" by blast
  from t c have "configFile ''/x/groups'' ''prod-group'' = ''/x/groups'' @ ''/'' @ ''prod-group'' @ ''.json''"
    by blast
  then have f1: "configFile ''/x/groups'' ''prod-group'' = ''/x/groups/prod-group.json''" by simp
  from d(1) m have "data = ''{'' @ nl @ ''  prod-group: cfg'' @ nl @ ''}''" by simp
  with d(2,3) f1 f2 show ?thesis by simp
qed

section \<open>No entity name leaves the category directory\<close>

text \<open>
  Claim C10. For an absolute category directory and any entity name at all, with slashes
  or \<^verbatim>\<open>..\<close> elements or empty, the file that \<^verbatim>\<open>writeJSONConfigFile\<close> names lies directly
  in the directory: its \<^verbatim>\<open>Dir\<close> is the cleaned directory, its last element is a name made
  from the base name of the entity's name alone, and whatever the call returns, no other
  entry of the file system changes and nothing else is written. The two directories that
  \<^verbatim>\<open>runExport\<close> passes to it are absolute whenever the working directory is.
\<close>

theorem config_file_inside_dir:
  assumes "IsAbs entityDir"
  shows "Dir (configFile entityDir entityName) = Clean entityDir
       \<and> Base (configFile entityDir entityName) = fileElem entityName
       \<and> normalSeg (fileElem entityName)
       \<and> fskey (configFile entityDir entityName) = fskey (Clean entityDir) @ [fileElem entityName]
       \<and> (\<forall>r w'. writeJSONConfigFile env entityDir entityName ent w = (r, w') \<longrightarrow>
            (\<forall>q. q \<noteq> fskey (configFile entityDir entityName) \<longrightarrow>
                 lookupN (fs w') q = lookupN (fs w) q)
            \<and> (trace w' = trace w
               \<or> (\<exists>d. trace w' = trace w @ [Wrote (configFile entityDir entityName) d])))
       \<and> (\<forall>g s w0 w4. wdAbsolute env \<and> setupExport env w0 = (Inr (g, s), w4) \<longrightarrow>
            IsAbs g \<and> IsAbs s)"
proof -
  let ?f = "configFile entityDir entityName"
  have r: "?f = render (cleanKey entityDir @ [fileElem entityName])"
    using assms by (rule configFile_render)
  have 1: "Dir ?f = Clean entityDir"
    using assms Dir_render_snoc [OF cleanKey_normal fileElem_normal, of entityDir entityName]
    by (simp add: r Clean_abs cleanKey_def)
  have 2: "Base ?f = fileElem entityName" by (simp add: r Base_render_snoc fileElem_normal)
  have 4: "fskey ?f = fskey (Clean entityDir) @ [fileElem entityName]"
    using assms by (simp add: fskey_configFile fskey_Clean)
  have 5: "(\<forall>q. q \<noteq> fskey ?f \<longrightarrow> lookupN (fs w') q = lookupN (fs w) q)
            \<and> (trace w' = trace w \<or> (\<exists>d. trace w' = trace w @ [Wrote ?f d]))"
    if "writeJSONConfigFile env entityDir entityName ent w = (r, w')" for r w'
    using writeJSON_cases [OF that] by (auto dest: WriteFile_other WriteFile_trace)
  have 6: "IsAbs g \<and> IsAbs s" if "wdAbsolute env" "setupExport env w0 = (Inr (g, s), w4)"
    for g s w0 w4
    using setup_dirs [OF that(2,1)] by auto
  from 1 2 4 5 6 fileElem_normal show ?thesis by blast
qed

theorem config_file_inside_dir_witness:
  "configFile ''/x/servers'' ''../../etc/passwd'' = ''/x/servers/passwd.json''
   \<and> Dir ''/x/servers/passwd.json'' = ''/x/servers''
   \<and> Base ''/x/servers/passwd.json'' = ''passwd.json''
   \<and> fskey ''/x/servers/passwd.json'' = [''x'', ''servers'', ''passwd.json'']
   \<and> lookupN (fs (snd (writeJSONConfigFile envX ''/x/servers'' ''../../etc/passwd'' entEscape worldX)))
        [''etc'', ''passwd''] = None
   \<and> lookupN (fs (snd (writeJSONConfigFile envX ''/x/servers'' ''../../etc/passwd'' entEscape worldX)))
        [''x'', ''servers'', ''passwd.json''] = Some (FileN (''{'' @ nl @ ''  ../../etc/passwd: cfg'' @ nl @ ''}''))"
proof -
  let ?w = "snd (writeJSONConfigFile envX ''/x/servers'' ''../../etc/passwd'' entEscape worldX)"
  have h: "IsAbs ''/x/servers''" by code_simp
  have f: "configFile ''/x/servers'' ''../../etc/passwd'' = ''/x/servers/passwd.json''" by code_simp
  have c: "Clean ''/x/servers'' = ''/x/servers''" by code_simp
  have e: "fileElem ''../../etc/passwd'' = ''passwd.json''" by code_simp
  have k: "fskey ''/x/servers'' = [''x'', ''servers'']" by code_simp
  have r: "writeJSONConfigFile envX ''/x/servers'' ''../../etc/passwd'' entEscape worldX = (None, ?w)"
    by code_simp
  have l0: "lookupN (fs worldX) [''etc'', ''passwd''] = None" by code_simp
  have l1: "lookupN (fs ?w) [''x'', ''servers'', ''passwd.json'']
            = Some (FileN (''{'' @ nl @ ''  ../../etc/passwd: cfg'' @ nl @ ''}''))" by code_simp
  note t = config_file_inside_dir [OF h, of "''../../etc/passwd''" envX entEscape worldX]
  from t f c e k have 1: "Dir ''/x/servers/passwd.json'' = ''/x/servers''
     \<and> Base ''/x/servers/passwd.json'' = ''passwd.json''
     \<and> fskey ''/x/servers/passwd.json'' = [''x'', ''servers'', ''passwd.json'']" by simp
  from t r f 1 have "\<forall>q. q \<noteq> [''x'', ''servers'', ''passwd.json''] \<longrightarrow>
     lookupN (fs ?w) q = lookupN (fs worldX) q" by simp
  then have 2: "lookupN (fs ?w) [''etc'', ''passwd''] = None" using l0 by simp
  from f 1 2 l1 show ?thesis by simp
qed

section \<open>A listing that fails is skipped with a warning\<close>

text \<open>
  Claim C1. Take a run that reaches the listing operations: the working directory is
  absolute, the file system is a tree, the target directory is resolved, and the system
  lets the command create the two subdirectories. Let one listing operation fail and the
  other return the entities \<open>A\<close> and \<open>B\<close>, both of which can be serialized and whose files
  the system lets the command write. Then the run returns no error. Its events after the
  resolution are exactly: the two subdirectories created, the listing operations invoked,
  the warning for the failed category with the error's message, and the two files
  written, each directly in the directory of the category that answered (for plain names
  the directory, a slash, the name and \<^verbatim>\<open>.json\<close>), with the serialization of its entity as
  content, the one of \<open>B\<close> where both names give the same file. Nothing is written for the
  failed category: its directory exists and is empty at the end. The first part is the
  case of the claim, the tool group listing failing; the second is the other way round.
\<close>

theorem listing_failure_tolerated:
  assumes "wdAbsolute env" and "wfFS (fs w)"
    and "resolveTargetDirForExport env w = (Inr d, w1)"
    and "fault env OpMkdir (Join d exportToolGroupsDir) = None"
    and "fault env OpMkdir (Join d exportMcpServersDir) = None"
    and "MarshalIndent env A [] ''  '' = Inr dA" and "MarshalIndent env B [] ''  '' = Inr dB"
  defines "g \<equiv> Join d exportToolGroupsDir" and "s \<equiv> Join d exportMcpServersDir"
  shows "(toolGroupConfigs env = Inl lErr \<and> serverConfigs env = Inr [A, B]
          \<and> fault env OpWriteFile (configFile s (Name A)) = None
          \<and> fault env OpWriteFile (configFile s (Name B)) = None
          \<longrightarrow> (\<exists>w'. runExport env w = (None, w')
               \<and> trace w' = trace w1 @
                   [Printed (creatingMsg d), Created g, Created s,
                    Printed (''Fetching Tool Group configurations...'' @ nl),
                    Called GetToolGroupConfigs,
                    Printed (''warning: failed to fetch tool group configurations: ''
                             @ message lErr @ nl),
                    Printed (''Fetching MCP Server configurations...'' @ nl),
                    Called GetServerConfigs,
                    Printed (''Writing MCP Server configurations to '' @ s @ nl),
                    Wrote (configFile s (Name A)) dA, Wrote (configFile s (Name B)) dB,
                    Printed (nl @ ''Export complete!'' @ nl)]
               \<and> stat w' (configFile s (Name A))
                   = Some (FileN (if configFile s (Name A) = configFile s (Name B) then dB else dA))
               \<and> stat w' (configFile s (Name B)) = Some (FileN dB)
               \<and> Dir (configFile s (Name A)) = s \<and> Dir (configFile s (Name B)) = s
               \<and> (normalSeg (Name A) \<longrightarrow> configFile s (Name A) = s @ ''/'' @ Name A @ ''.json'')
               \<and> (normalSeg (Name B) \<longrightarrow> configFile s (Name B) = s @ ''/'' @ Name B @ ''.json'')
               \<and> stat w' g = Some DirN \<and> dirEntries (fs w') (fskey g) = []))
       \<and> (toolGroupConfigs env = Inr [A, B] \<and> serverConfigs env = Inl lErr
          \<and> fault env OpWriteFile (configFile g (Name A)) = None
          \<and> fault env OpWriteFile (configFile g (Name B)) = None
          \<longrightarrow> (\<exists>w'. runExport env w = (None, w')
               \<and> trace w' = trace w1 @
                   [Printed (creatingMsg d), Created g, Created s,
                    Printed (''Fetching Tool Group configurations...'' @ nl),
                    Called GetToolGroupConfigs,
                    Printed (''Writing Tool Groups configurations to '' @ g @ nl),
                    Wrote (configFile g (Name A)) dA, Wrote (configFile g (Name B)) dB,
                    Printed (''Fetching MCP Server configurations...'' @ nl),
                    Called GetServerConfigs,
                    Printed (''warning: failed to fetch mcp server configurations: ''
                             @ message lErr),
                    Printed (nl @ ''Export complete!'' @ nl)]
               \<and> stat w' (configFile g (Name A))
                   = Some (FileN (if configFile g (Name A) = configFile g (Name B) then dB else dA))
               \<and> stat w' (configFile g (Name B)) = Some (FileN dB)
               \<and> Dir (configFile g (Name A)) = g \<and> Dir (configFile g (Name B)) = g
               \<and> (normalSeg (Name A) \<longrightarrow> configFile g (Name A) = g @ ''/'' @ Name A @ ''.json'')
               \<and> (normalSeg (Name B) \<longrightarrow> configFile g (Name B) = g @ ''/'' @ Name B @ ''.json'')
               \<and> stat w' s = Some DirN \<and> dirEntries (fs w') (fskey s) = []))"
proof -
  from setup_ok [OF assms(1-5)] obtain w4 ks where
    su: "setupExport env w = (Inr (g, s), w4)"
    and t4: "trace w4 = trace w1 @ [Printed (creatingMsg d), Created g, Created s]"
    and ks: "list_all normalSeg ks"
    and g: "g = render (ks @ [exportToolGroupsDir])"
    and s: "s = render (ks @ [exportMcpServersDir])"
    and lg: "lookupN (fs w4) (ks @ [exportToolGroupsDir]) = Some DirN"
    and ls: "lookupN (fs w4) (ks @ [exportMcpServersDir]) = Some DirN"
    and eg: "dirEntries (fs w4) (ks @ [exportToolGroupsDir]) = []"
    and es: "dirEntries (fs w4) (ks @ [exportMcpServersDir]) = []"
    unfolding g_def s_def by blast
  let ?gk = "ks @ [exportToolGroupsDir]" and ?sk = "ks @ [exportMcpServersDir]"
  have ng: "list_all normalSeg ?gk" and ns: "list_all normalSeg ?sk"
    using ks by (simp_all add: normalSeg_groups normalSeg_servers)
  have cg: "cleanKey g = ?gk" and cs: "cleanKey s = ?sk"
    using ng ns by (simp_all add: g s cleanKey_render)
  have kg: "fskey g = ?gk" and ksv: "fskey s = ?sk"
    using ng ns by (simp_all add: g s fskey_render)
  have ag: "IsAbs g" and as: "IsAbs s" by (simp_all add: g s)
  have clg: "Clean g = g" and cls: "Clean s = s"
    using ng ns by (simp_all add: g s Clean_render)
  have rg: "g \<noteq> ''/''" and rs: "s \<noteq> ''/''"
    using render_child_not_root [of exportToolGroupsDir ks]
      render_child_not_root [of exportMcpServersDir ks]
    by (simp_all add: g s exportToolGroupsDir_def exportMcpServersDir_def)
  have ne: "?gk \<noteq> ?sk" by (simp add: exportToolGroupsDir_def exportMcpServersDir_def)
  show ?thesis
  proof (intro conjI impI)
    assume a: "toolGroupConfigs env = Inl lErr \<and> serverConfigs env = Inr [A, B]
          \<and> fault env OpWriteFile (configFile s (Name A)) = None
          \<and> fault env OpWriteFile (configFile s (Name B)) = None"
    define w5 where "w5 = Printf (''warning: failed to fetch tool group configurations: ''
                                  @ message lErr @ nl) (groupsCalled w4)"
    define w0 where "w0 = serversStart s w5"
    have x5: "exportToolGroups env g w4 = (None, w5)"
      using a by (simp add: exportToolGroups_Inl w5_def)
    have f0: "fs w0 = fs w4"
      by (simp add: w0_def w5_def serversStart_def serversCalled_def groupsCalled_def)
    have t0: "trace w0 = trace w4 @
        [Printed (''Fetching Tool Group configurations...'' @ nl), Called GetToolGroupConfigs,
         Printed (''warning: failed to fetch tool group configurations: '' @ message lErr @ nl),
         Printed (''Fetching MCP Server configurations...'' @ nl), Called GetServerConfigs,
         Printed (''Writing MCP Server configurations to '' @ s @ nl)]"
      by (simp add: w0_def w5_def serversStart_def serversCalled_def groupsCalled_def)
    from category_written [of s w0 env A dA B dB ?gk] as a assms(6,7) ls es lg eg ne
    obtain w6 where
      w6: "writeEntities env s [A, B] w0 = (None, w6)"
        "trace w6 = trace w0 @ [Wrote (configFile s (Name A)) dA, Wrote (configFile s (Name B)) dB]"
        "stat w6 (configFile s (Name A))
           = Some (FileN (if configFile s (Name A) = configFile s (Name B) then dB else dA))"
        "stat w6 (configFile s (Name B)) = Some (FileN dB)"
        "lookupN (fs w6) ?gk = Some DirN" "dirEntries (fs w6) ?gk = []"
      by (auto simp: cs f0)
    have x6: "exportMcpServers env s w5 = (None, w6)"
      using a w6(1) by (simp add: exportMcpServers_Cons w0_def)
    define w' where "w' = Println (nl @ ''Export complete!'') w6"
    have run: "runExport env w = (None, w')"
      using su x5 x6 by (simp add: runExport_def w'_def)
    have tr: "trace w' = trace w1 @
                   [Printed (creatingMsg d), Created g, Created s,
                    Printed (''Fetching Tool Group configurations...'' @ nl),
                    Called GetToolGroupConfigs,
                    Printed (''warning: failed to fetch tool group configurations: ''
                             @ message lErr @ nl),
                    Printed (''Fetching MCP Server configurations...'' @ nl),
                    Called GetServerConfigs,
                    Printed (''Writing MCP Server configurations to '' @ s @ nl),
                    Wrote (configFile s (Name A)) dA, Wrote (configFile s (Name B)) dB,
                    Printed (nl @ ''Export complete!'' @ nl)]"
      by (simp add: w'_def w6(2) t0 t4)
    have st: "stat w' (configFile s (Name A))
                   = Some (FileN (if configFile s (Name A) = configFile s (Name B) then dB else dA))"
        "stat w' (configFile s (Name B)) = Some (FileN dB)"
        "stat w' g = Some DirN" "dirEntries (fs w') (fskey g) = []"
      using w6(3-6) by (simp_all add: stat_def w'_def kg)
    have di: "Dir (configFile s (Name A)) = s" "Dir (configFile s (Name B)) = s"
      using as cls by (simp_all add: Dir_configFile)
    have li: "normalSeg n \<Longrightarrow> configFile s n = s @ ''/'' @ n @ ''.json''" for n
      using as cls rs by (rule configFile_literal)
    from run tr st di li
    show "\<exists>w'. runExport env w = (None, w')
               \<and> trace w' = trace w1 @
                   [Printed (creatingMsg d), Created g, Created s,
                    Printed (''Fetching Tool Group configurations...'' @ nl),
                    Called GetToolGroupConfigs,
                    Printed (''warning: failed to fetch tool group configurations: ''
                             @ message lErr @ nl),
                    Printed (''Fetching MCP Server configurations...'' @ nl),
                    Called GetServerConfigs,
                    Printed (''Writing MCP Server configurations to '' @ s @ nl),
                    Wrote (configFile s (Name A)) dA, Wrote (configFile s (Name B)) dB,
                    Printed (nl @ ''Export complete!'' @ nl)]
               \<and> stat w' (configFile s (Name A))
                   = Some (FileN (if configFile s (Name A) = configFile s (Name B) then dB else dA))
               \<and> stat w' (configFile s (Name B)) = Some (FileN dB)
               \<and> Dir (configFile s (Name A)) = s \<and> Dir (configFile s (Name B)) = s
               \<and> (normalSeg (Name A) \<longrightarrow> configFile s (Name A) = s @ ''/'' @ Name A @ ''.json'')
               \<and> (normalSeg (Name B) \<longrightarrow> configFile s (Name B) = s @ ''/'' @ Name B @ ''.json'')
               \<and> stat w' g = Some DirN \<and> dirEntries (fs w') (fskey g) = []"
      by blast
  next
    assume a: "toolGroupConfigs env = Inr [A, B] \<and> serverConfigs env = Inl lErr
          \<and> fault env OpWriteFile (configFile g (Name A)) = None
          \<and> fault env OpWriteFile (configFile g (Name B)) = None"
    define w0 where "w0 = groupsStart g w4"
    have f0: "fs w0 = fs w4" by (simp add: w0_def groupsStart_def groupsCalled_def)
    have t0: "trace w0 = trace w4 @
        [Printed (''Fetching Tool Group configurations...'' @ nl), Called GetToolGroupConfigs,
         Printed (''Writing Tool Groups configurations to '' @ g @ nl)]"
      by (simp add: w0_def groupsStart_def groupsCalled_def)
    from category_written [of g w0 env A dA B dB ?sk] ag a assms(6,7) ls es lg eg ne
    obtain w5 where
      w5: "writeEntities env g [A, B] w0 = (None, w5)"
        "trace w5 = trace w0 @ [Wrote (configFile g (Name A)) dA, Wrote (configFile g (Name B)) dB]"
        "stat w5 (configFile g (Name A))
           = Some (FileN (if configFile g (Name A) = configFile g (Name B) then dB else dA))"
        "stat w5 (configFile g (Name B)) = Some (FileN dB)"
        "lookupN (fs w5) ?sk = Some DirN" "dirEntries (fs w5) ?sk = []"
      by (auto simp: cg f0)
    have x5: "exportToolGroups env g w4 = (None, w5)"
      using a w5(1) by (simp add: exportToolGroups_Cons w0_def)
    define w6 where "w6 = Printf (''warning: failed to fetch mcp server configurations: ''
                                  @ message lErr) (serversCalled w5)"
    have x6: "exportMcpServers env s w5 = (None, w6)"
      using a by (simp add: exportMcpServers_Inl w6_def)
    define w' where "w' = Println (nl @ ''Export complete!'') w6"
    have run: "runExport env w = (None, w')"
      using su x5 x6 by (simp add: runExport_def w'_def)
    have tr: "trace w' = trace w1 @
                   [Printed (creatingMsg d), Created g, Created s,
                    Printed (''Fetching Tool Group configurations...'' @ nl),
                    Called GetToolGroupConfigs,
                    Printed (''Writing Tool Groups configurations to '' @ g @ nl),
                    Wrote (configFile g (Name A)) dA, Wrote (configFile g (Name B)) dB,
                    Printed (''Fetching MCP Server configurations...'' @ nl),
                    Called GetServerConfigs,
                    Printed (''warning: failed to fetch mcp server configurations: ''
                             @ message lErr),
                    Printed (nl @ ''Export complete!'' @ nl)]"
      by (simp add: w'_def w6_def serversCalled_def w5(2) t0 t4)
    have st: "stat w' (configFile g (Name A))
                   = Some (FileN (if configFile g (Name A) = configFile g (Name B) then dB else dA))"
        "stat w' (configFile g (Name B)) = Some (FileN dB)"
        "stat w' s = Some DirN" "dirEntries (fs w') (fskey s) = []"
      using w5(3-6) by (simp_all add: stat_def w'_def w6_def serversCalled_def ksv)
    have di: "Dir (configFile g (Name A)) = g" "Dir (configFile g (Name B)) = g"
      using ag clg by (simp_all add: Dir_configFile)
    have li: "normalSeg n \<Longrightarrow> configFile g n = g @ ''/'' @ n @ ''.json''" for n
      using ag clg rg by (rule configFile_literal)
    from run tr st di li
    show "\<exists>w'. runExport env w = (None, w')
               \<and> trace w' = trace w1 @
                   [Printed (creatingMsg d), Created g, Created s,
                    Printed (''Fetching Tool Group configurations...'' @ nl),
                    Called GetToolGroupConfigs,
                    Printed (''Writing Tool Groups configurations to '' @ g @ nl),
                    Wrote (configFile g (Name A)) dA, Wrote (configFile g (Name B)) dB,
                    Printed (''Fetching MCP Server configurations...'' @ nl),
                    Called GetServerConfigs,
                    Printed (''warning: failed to fetch mcp server configurations: ''
                             @ message lErr),
                    Printed (nl @ ''Export complete!'' @ nl)]
               \<and> stat w' (configFile g (Name A))
                   = Some (FileN (if configFile g (Name A) = configFile g (Name B) then dB else dA))
               \<and> stat w' (configFile g (Name B)) = Some (FileN dB)
               \<and> Dir (configFile g (Name A)) = g \<and> Dir (configFile g (Name B)) = g
               \<and> (normalSeg (Name A) \<longrightarrow> configFile g (Name A) = g @ ''/'' @ Name A @ ''.json'')
               \<and> (normalSeg (Name B) \<longrightarrow> configFile g (Name B) = g @ ''/'' @ Name B @ ''.json'')
               \<and> stat w' s = Some DirN \<and> dirEntries (fs w') (fskey s) = []"
      by blast
  qed
qed

theorem listing_failure_tolerated_witness:
  "fst (runExport envX worldW) = None
   \<and> stat (snd (runExport envX worldW)) ''/x/servers/A.json''
       = Some (FileN (''{'' @ nl @ ''  A: 1'' @ nl @ ''}''))
   \<and> stat (snd (runExport envX worldW)) ''/x/servers/B.json''
       = Some (FileN (''{'' @ nl @ ''  B: 2'' @ nl @ ''}''))
   \<and> stat (snd (runExport envX worldW)) ''/x/groups'' = Some DirN
   \<and> dirEntries (fs (snd (runExport envX worldW))) (fskey ''/x/groups'') = []
   \<and> trace (snd (runExport envX worldW)) =
        [Created ''/x'', Printed (creatingMsg ''/x''),
         Created ''/x/groups'', Created ''/x/servers'',
         Printed (''Fetching Tool Group configurations...'' @ nl),
         Called GetToolGroupConfigs,
         Printed (''warning: failed to fetch tool group configurations: connection refused'' @ nl),
         Printed (''Fetching MCP Server configurations...'' @ nl),
         Called GetServerConfigs,
         Printed (''Writing MCP Server configurations to /x/servers'' @ nl),
         Wrote ''/x/servers/A.json'' (''{'' @ nl @ ''  A: 1'' @ nl @ ''}''),
         Wrote ''/x/servers/B.json'' (''{'' @ nl @ ''  B: 2'' @ nl @ ''}''),
         Printed (nl @ ''Export complete!'' @ nl)]
   \<and> fst (runExport envServersDown worldW) = None
   \<and> stat (snd (runExport envServersDown worldW)) ''/x/groups/A.json''
       = Some (FileN (''{'' @ nl @ ''  A: 1'' @ nl @ ''}''))
   \<and> stat (snd (runExport envServersDown worldW)) ''/x/groups/B.json''
       = Some (FileN (''{'' @ nl @ ''  B: 2'' @ nl @ ''}''))
   \<and> dirEntries (fs (snd (runExport envServersDown worldW))) (fskey ''/x/servers'') = []"
proof -
  let ?dA = "''{'' @ nl @ ''  A: 1'' @ nl @ ''}''" and ?dB = "''{'' @ nl @ ''  B: 2'' @ nl @ ''}''"
  have js: "Join ''/x'' exportMcpServersDir = ''/x/servers''"
    and jg: "Join ''/x'' exportToolGroupsDir = ''/x/groups''" by code_simp+
  have n: "normalSeg (Name entA)" "normalSeg (Name entB)" by code_simp+
  have na: "Name entA = ''A''" "Name entB = ''B''" by code_simp+
  have ne: "''/x/servers/A.json'' \<noteq> ''/x/servers/B.json''"
    "''/x/groups/A.json'' \<noteq> ''/x/groups/B.json''" by simp_all
  have h1: "wdAbsolute envX" by code_simp
  have h2: "wfFS (fs worldW)" by code_simp
  have h3: "resolveTargetDirForExport envX worldW
            = (Inr ''/x'', snd (resolveTargetDirForExport envX worldW))" by code_simp
  have h4: "fault envX OpMkdir (Join ''/x'' exportToolGroupsDir) = None" by code_simp
  have h5: "fault envX OpMkdir (Join ''/x'' exportMcpServersDir) = None" by code_simp
  have h6: "MarshalIndent envX entA [] ''  '' = Inr ?dA" by code_simp
  have h7: "MarshalIndent envX entB [] ''  '' = Inr ?dB" by code_simp
  have c1: "toolGroupConfigs envX = Inl (Error ''connection refused'')
     \<and> serverConfigs envX = Inr [entA, entB]
     \<and> fault envX OpWriteFile (configFile (Join ''/x'' exportMcpServersDir) (Name entA)) = None
     \<and> fault envX OpWriteFile (configFile (Join ''/x'' exportMcpServersDir) (Name entB)) = None"
    by code_simp
  have t1: "trace (snd (resolveTargetDirForExport envX worldW)) = [Created ''/x'']" by code_simp
  from listing_failure_tolerated [OF h1 h2 h3 h4 h5 h6 h7, of "Error ''connection refused''"] c1
  obtain w' where w: "runExport envX worldW = (None, w')"
    "trace w' = trace (snd (resolveTargetDirForExport envX worldW)) @
       [Printed (creatingMsg ''/x''), Created ''/x/groups'', Created ''/x/servers'',
        Printed (''Fetching Tool Group configurations...'' @ nl),
        Called GetToolGroupConfigs,
        Printed (''warning: failed to fetch tool group configurations: ''
                 @ message (Error ''connection refused'') @ nl),
        Printed (''Fetching MCP Server configurations...'' @ nl),
        Called GetServerConfigs,
        Printed (''Writing MCP Server configurations to '' @ ''/x/servers'' @ nl),
        Wrote (configFile ''/x/servers'' (Name entA)) ?dA,
        Wrote (configFile ''/x/servers'' (Name entB)) ?dB,
        Printed (nl @ ''Export complete!'' @ nl)]"
    "stat w' (configFile ''/x/servers'' (Name entA))
       = Some (FileN (if configFile ''/x/servers'' (Name entA) = configFile ''/x/servers'' (Name entB)
                      then ?dB else ?dA))"
    "stat w' (configFile ''/x/servers'' (Name entB)) = Some (FileN ?dB)"
    "normalSeg (Name entA) \<longrightarrow>
       configFile ''/x/servers'' (Name entA) = ''/x/servers'' @ ''/'' @ Name entA @ ''.json''"
    "normalSeg (Name entB) \<longrightarrow>
       configFile ''/x/servers'' (Name entB) = ''/x/servers'' @ ''/'' @ Name entB @ ''.json''"
    "stat w' ''/x/groups'' = Some DirN" "dirEntries (fs w') (fskey ''/x/groups'') = []"
    unfolding js jg by blast
  from w(5,6) n na have f: "configFile ''/x/servers'' (Name entA) = ''/x/servers/A.json''"
    "configFile ''/x/servers'' (Name entB) = ''/x/servers/B.json''" by simp_all
  have p1: "fst (runExport envX worldW) = None
   \<and> stat (snd (runExport envX worldW)) ''/x/servers/A.json'' = Some (FileN ?dA)
   \<and> stat (snd (runExport envX worldW)) ''/x/servers/B.json'' = Some (FileN ?dB)
   \<and> stat (snd (runExport envX worldW)) ''/x/groups'' = Some DirN
   \<and> dirEntries (fs (snd (runExport envX worldW))) (fskey ''/x/groups'') = []"
    using w(1,3,4,7,8) ne(1) by (simp add: f)
  have p2: "trace (snd (runExport envX worldW)) =
        [Created ''/x'', Printed (creatingMsg ''/x''),
         Created ''/x/groups'', Created ''/x/servers'',
         Printed (''Fetching Tool Group configurations...'' @ nl),
         Called GetToolGroupConfigs,
         Printed (''warning: failed to fetch tool group configurations: connection refused'' @ nl),
         Printed (''Fetching MCP Server configurations...'' @ nl),
         Called GetServerConfigs,
         Printed (''Writing MCP Server configurations to /x/servers'' @ nl),
         Wrote ''/x/servers/A.json'' ?dA,
         Wrote ''/x/servers/B.json'' ?dB,
         Printed (nl @ ''Export complete!'' @ nl)]"
    using w(1,2) t1 by (simp add: f)
  have k1: "wdAbsolute envServersDown" by code_simp
  have k3: "resolveTargetDirForExport envServersDown worldW
            = (Inr ''/x'', snd (resolveTargetDirForExport envServersDown worldW))" by code_simp
  have k4: "fault envServersDown OpMkdir (Join ''/x'' exportToolGroupsDir) = None" by code_simp
  have k5: "fault envServersDown OpMkdir (Join ''/x'' exportMcpServersDir) = None" by code_simp
  have k6: "MarshalIndent envServersDown entA [] ''  '' = Inr ?dA" by code_simp
  have k7: "MarshalIndent envServersDown entB [] ''  '' = Inr ?dB" by code_simp
  have c2: "toolGroupConfigs envServersDown = Inr [entA, entB]
     \<and> serverConfigs envServersDown = Inl (Error ''timeout'')
     \<and> fault envServersDown OpWriteFile (configFile (Join ''/x'' exportToolGroupsDir) (Name entA)) = None
     \<and> fault envServersDown OpWriteFile (configFile (Join ''/x'' exportToolGroupsDir) (Name entB)) = None"
    by code_simp
  from listing_failure_tolerated [OF k1 h2 k3 k4 k5 k6 k7, of "Error ''timeout''"] c2
  obtain v' where v: "runExport envServersDown worldW = (None, v')"
    "stat v' (configFile ''/x/groups'' (Name entA))
       = Some (FileN (if configFile ''/x/groups'' (Name entA) = configFile ''/x/groups'' (Name entB)
                      then ?dB else ?dA))"
    "stat v' (configFile ''/x/groups'' (Name entB)) = Some (FileN ?dB)"
    "normalSeg (Name entA) \<longrightarrow>
       configFile ''/x/groups'' (Name entA) = ''/x/groups'' @ ''/'' @ Name entA @ ''.json''"
    "normalSeg (Name entB) \<longrightarrow>
       configFile ''/x/groups'' (Name entB) = ''/x/groups'' @ ''/'' @ Name entB @ ''.json''"
    "dirEntries (fs v') (fskey ''/x/servers'') = []"
    unfolding js jg by blast
  from v(4,5) n na have f2: "configFile ''/x/groups'' (Name entA) = ''/x/groups/A.json''"
    "configFile ''/x/groups'' (Name entB) = ''/x/groups/B.json''" by simp_all
  have p3: "fst (runExport envServersDown worldW) = None
   \<and> stat (snd (runExport envServersDown worldW)) ''/x/groups/A.json'' = Some (FileN ?dA)
   \<and> stat (snd (runExport envServersDown worldW)) ''/x/groups/B.json'' = Some (FileN ?dB)
   \<and> dirEntries (fs (snd (runExport envServersDown worldW))) (fskey ''/x/servers'') = []"
    using v(1,2,3,6) ne(2) by (simp add: f2)
  from p1 p2 p3 show ?thesis by simp
qed

section \<open>A failure on one entity stops the export\<close>



end
